theory Spec2Isabelle
  imports Main "HOL-Library.Sublist"
begin

section \<open>SimplePortfolio: data model\<close>

text \<open>
  The embedding follows \<^verbatim>\<open>src/index.ts\<close>. A JavaScript string is modelled as a
  \<^typ>\<open>string\<close>; the five characters the program inspects are ASCII, so the model
  does not depend on how other characters are encoded.

  A field that the program itself tests for truthiness (\<^verbatim>\<open>!project.id\<close>,
  \<^verbatim>\<open>config.theme || 'light'\<close>, \<^verbatim>\<open>url && ...\<close>, \<^verbatim>\<open>!portfolio.config\<close>) is an
  \<^typ>\<open>'a option\<close>: \<^term>\<open>None\<close> is JavaScript's \<^verbatim>\<open>undefined\<close> (an absent
  property). Such a value is falsy when it is absent or the empty string.
\<close>

datatype Theme = Light | Dark

record Project =
  id :: "string option"
  title :: "string option"
  description :: "string option"
  technologies :: "string list"
  url :: "string option"
  imageUrl :: "string option"

text \<open>
  \<^verbatim>\<open>socialLinks\<close> is the object's own entries in the order \<^verbatim>\<open>Object.entries\<close>
  returns them; each optional property may hold a string or \<^verbatim>\<open>undefined\<close>.
\<close>

record PortfolioConfig =
  name :: "string option"
  title :: "string option"
  bio :: "string option"
  email :: "string option"
  socialLinks :: "(string \<times> string option) list option"
  theme :: "Theme option"

record Portfolio =
  config :: "PortfolioConfig option"
  projects :: "Project list"

text \<open>
  Every \<^verbatim>\<open>throw new Error(msg)\<close> of the source is \<^term>\<open>Error msg\<close>. Calling
  \<^verbatim>\<open>.replace\<close> on \<^verbatim>\<open>undefined\<close> raises the runtime's \<^verbatim>\<open>TypeError\<close>.
\<close>

datatype error = Error string | TypeError

definition falsy :: "string option \<Rightarrow> bool" where
  "falsy v = (case v of None \<Rightarrow> True | Some s \<Rightarrow> s = [])"

definition bindE :: "error + 'a \<Rightarrow> ('a \<Rightarrow> error + 'b) \<Rightarrow> error + 'b" where
  "bindE m f = (case m of Inl e \<Rightarrow> Inl e | Inr x \<Rightarrow> f x)"

fun mapE :: "('a \<Rightarrow> error + 'b) \<Rightarrow> 'a list \<Rightarrow> error + 'b list" where
  "mapE f [] = Inr []"
| "mapE f (x # xs) = bindE (f x) (\<lambda>y. bindE (mapE f xs) (\<lambda>ys. Inr (y # ys)))"

text \<open>\<^verbatim>\<open>Array.prototype.join\<close> on an array of strings.\<close>

fun join :: "string \<Rightarrow> string list \<Rightarrow> string" where
  "join sep [] = []"
| "join sep [x] = x"
| "join sep (x # y # ys) = x @ sep @ join sep (y # ys)"

section \<open>escapeHTML\<close>

text \<open>
  \<^verbatim>\<open>str.replace(/c/g, r)\<close> for a one-character pattern: every occurrence of the
  character is replaced, scanning left to right.
\<close>

definition replaceAll :: "char \<Rightarrow> string \<Rightarrow> string \<Rightarrow> string" where
  "replaceAll c r str = concat (map (\<lambda>x. if x = c then r else [x]) str)"

definition escapeHTML :: "string \<Rightarrow> string" where
  "escapeHTML str =
     replaceAll (CHR 0x27) ''&#039;''
       (replaceAll (CHR 0x22) ''&quot;''
         (replaceAll CHR ''>'' ''&gt;''
           (replaceAll CHR ''<'' ''&lt;''
             (replaceAll CHR ''&'' ''&amp;'' str))))"

text \<open>The substitution table of the specification, one character at a time.\<close>

definition entity :: "char \<Rightarrow> string" where
  "entity c =
     (if c = CHR ''&'' then ''&amp;''
      else if c = CHR ''<'' then ''&lt;''
      else if c = CHR ''>'' then ''&gt;''
      else if c = CHR 0x22 then ''&quot;''
      else if c = CHR 0x27 then ''&#039;''
      else [c])"

section \<open>isValidURL\<close>

text \<open>
  \<^verbatim>\<open>isValidURL\<close> wraps the platform's \<^verbatim>\<open>new URL(url)\<close>, which is not part of the
  repository. It is a parameter \<open>isValidURL :: string \<Rightarrow> bool\<close> of the functions
  that call it, and every theorem holds for every such predicate. The constructor
  converts its argument to a string first, as a template literal does.
\<close>

definition toString :: "string option \<Rightarrow> string" where
  "toString v = (case v of None \<Rightarrow> ''undefined'' | Some s \<Rightarrow> s)"

section \<open>createPortfolio\<close>

definition invalidLinks :: "(string \<Rightarrow> bool) \<Rightarrow> (string \<times> string option) list \<Rightarrow> string list" where
  "invalidLinks isValidURL links =
     map (\<lambda>(platform, url). platform @ '': '' @ toString url)
       (filter (\<lambda>(_, url). \<not> falsy url \<and> \<not> isValidURL (toString url)) links)"

text \<open>
  The offending pairs in the words of the specification: the entries whose value is a
  non-empty string that is not a valid URL, in the order of the mapping.
\<close>

definition offendingPairs :: "(string \<Rightarrow> bool) \<Rightarrow> (string \<times> string option) list \<Rightarrow> (string \<times> string) list" where
  "offendingPairs isValidURL links =
     concat (map (\<lambda>(platform, v).
                    case v of None \<Rightarrow> []
                    | Some u \<Rightarrow> if u \<noteq> [] \<and> \<not> isValidURL u then [(platform, u)] else []) links)"

definition createPortfolio :: "(string \<Rightarrow> bool) \<Rightarrow> PortfolioConfig \<Rightarrow> error + Portfolio" where
  "createPortfolio isValidURL cfg =
     (if falsy (name cfg) \<or> falsy (PortfolioConfig.title cfg) \<or> falsy (bio cfg) \<or> falsy (email cfg)
      then Inl (Error ''Portfolio requires name, title, bio, and email in configuration'')
      else
        (case socialLinks cfg of
           Some links \<Rightarrow>
             if invalidLinks isValidURL links \<noteq> []
             then Inl (Error (''Invalid URLs in social links: '' @ join '', '' (invalidLinks isValidURL links)))
             else Inr \<lparr>config = Some (cfg\<lparr>theme := Some (case theme cfg of None \<Rightarrow> Light | Some t \<Rightarrow> t)\<rparr>),
                       projects = []\<rparr>
         | None \<Rightarrow>
             Inr \<lparr>config = Some (cfg\<lparr>theme := Some (case theme cfg of None \<Rightarrow> Light | Some t \<Rightarrow> t)\<rparr>),
                  projects = []\<rparr>))"

section \<open>addProject\<close>

text \<open>
  \<^verbatim>\<open>addProject\<close> mutates its first argument and returns nothing; the model returns
  the outcome of the call together with the portfolio as it is after the call.
\<close>

definition addProject ::
  "(string \<Rightarrow> bool) \<Rightarrow> Portfolio \<Rightarrow> Project \<Rightarrow> (error + unit) \<times> Portfolio" where
  \<open>addProject isValidURL portfolio project =
     (if falsy (Project.id project) \<or> falsy (Project.title project)
         \<or> falsy (description project) \<or> falsy (url project)
      then (Inl (Error ''Project requires id, title, description, and url''), portfolio)
      else if list_ex (\<lambda>p. Project.id p = Project.id project) (projects portfolio)
      then (Inl (Error (''Project with ID "'' @ toString (Project.id project) @ ''" already exists'')),
            portfolio)
      else if \<not> isValidURL (toString (url project))
      then (Inl (Error (''Invalid URL in project "'' @ toString (Project.title project) @ ''": ''
                        @ toString (url project))),
            portfolio)
      else if \<not> falsy (imageUrl project) \<and> \<not> isValidURL (toString (imageUrl project))
      then (Inl (Error (''Invalid image URL in project "'' @ toString (Project.title project) @ ''": ''
                        @ toString (imageUrl project))),
            portfolio)
      else (Inr (), portfolio\<lparr>projects := projects portfolio @ [project]\<rparr>))\<close>

text \<open>
  A caller making one \<^verbatim>\<open>addProject\<close> call after another on the same portfolio
  (catching the failures): the outcomes of the calls, and the portfolio at the end.
\<close>

fun addProjectCalls ::
  "(string \<Rightarrow> bool) \<Rightarrow> Portfolio \<Rightarrow> Project list \<Rightarrow> (error + unit) list \<times> Portfolio" where
  "addProjectCalls isValidURL portfolio [] = ([], portfolio)"
| "addProjectCalls isValidURL portfolio (project # rest) =
     (case addProject isValidURL portfolio project of
        (outcome, portfolio') \<Rightarrow>
          (case addProjectCalls isValidURL portfolio' rest of
             (outcomes, portfolio'') \<Rightarrow> (outcome # outcomes, portfolio'')))"

text \<open>The projects of the calls that succeeded, in call order.\<close>

definition succeeded :: "Project list \<Rightarrow> (error + unit) list \<Rightarrow> Project list" where
  "succeeded calls outcomes = map fst (filter (\<lambda>(project, outcome). outcome = Inr ()) (zip calls outcomes))"

section \<open>generateHTML\<close>

text \<open>A call \<^verbatim>\<open>escapeHTML(v)\<close> whose argument may be \<^verbatim>\<open>undefined\<close>.\<close>

definition escapeArg :: "string option \<Rightarrow> error + string" where
  "escapeArg v = (case v of None \<Rightarrow> Inl TypeError | Some s \<Rightarrow> Inr (escapeHTML s))"

definition themeStyles :: "PortfolioConfig \<Rightarrow> string" where
  "themeStyles cfg =
     (if theme cfg = Some Dark
      then ''body { background: #121212; color: #ffffff; }''
      else ''body { background: #ffffff; color: #000000; }'')"

definition techTag :: "string \<Rightarrow> string" where
  \<open>techTag tech = ''<span class="tech-tag">'' @ escapeHTML tech @ ''</span>''\<close>

text \<open>
  The template literals of \<^verbatim>\<open>generateHTML\<close>, each with its holes as arguments:
  the image element, a project card, a social link, and the document.
\<close>

definition imageTemplate :: "string \<Rightarrow> string \<Rightarrow> string" where
  \<open>imageTemplate src alt = ''<img src="'' @ src @ ''" alt="'' @ alt @ ''">''\<close>

definition cardTemplate :: "string \<Rightarrow> string \<Rightarrow> string \<Rightarrow> string \<Rightarrow> string \<Rightarrow> string" where
  \<open>cardTemplate ttl desc tags href img =
     ''\<newline>''
   @ ''      <div class="project-card">\<newline>''
   @ ''        <h3>'' @ ttl @ ''</h3>\<newline>''
   @ ''        <p>'' @ desc @ ''</p>\<newline>''
   @ ''        <div class="tech-list">'' @ tags @ ''</div>\<newline>''
   @ ''        <a href="'' @ href @ ''" target="_blank" rel="noopener noreferrer">View Project</a>\<newline>''
   @ ''        '' @ img @ ''\<newline>''
   @ ''      </div>\<newline>''
   @ ''    ''\<close>

definition linkTemplate :: "string \<Rightarrow> string \<Rightarrow> string" where
  \<open>linkTemplate href platform =
     ''<a href="'' @ href @ ''" class="social-link" rel="noopener noreferrer">'' @ platform @ ''</a>''\<close>

definition projectImage :: "Project \<Rightarrow> error + string" where
  "projectImage project =
     (if falsy (imageUrl project) then Inr []
      else
        bindE (escapeArg (imageUrl project)) (\<lambda>src.
        bindE (escapeArg (Project.title project)) (\<lambda>alt.
        Inr (imageTemplate src alt))))"

definition projectCard :: "Project \<Rightarrow> error + string" where
  "projectCard project =
     bindE (escapeArg (Project.title project)) (\<lambda>ttl.
     bindE (escapeArg (description project)) (\<lambda>desc.
     bindE (escapeArg (url project)) (\<lambda>href.
     bindE (projectImage project) (\<lambda>img.
     Inr (cardTemplate ttl desc (join [] (map techTag (technologies project))) href img)))))"

definition socialLink :: "string \<times> string option \<Rightarrow> error + string" where
  "socialLink =
     (\<lambda>(platform, url).
        bindE (escapeArg url) (\<lambda>href. Inr (linkTemplate href (escapeHTML platform))))"

definition socialLinksHTML :: "PortfolioConfig \<Rightarrow> error + string" where
  "socialLinksHTML cfg =
     (case socialLinks cfg of
        Some links \<Rightarrow> bindE (mapE socialLink links) (\<lambda>anchors. Inr (join [] anchors))
      | None \<Rightarrow> Inr [])"

definition document ::
  "string \<Rightarrow> string \<Rightarrow> string \<Rightarrow> string \<Rightarrow> string \<Rightarrow> string \<Rightarrow> string \<Rightarrow> string" where
  \<open>document nm ttl styles bi mail social cards =
     ''<!DOCTYPE html>\<newline>''
   @ ''<html lang="en">\<newline>''
   @ ''<head>\<newline>''
   @ ''  <meta charset="UTF-8">\<newline>''
   @ ''  <meta name="viewport" content="width=device-width, initial-scale=1.0">\<newline>''
   @ ''  <title>'' @ nm @ '' - '' @ ttl @ ''</title>\<newline>''
   @ ''  <style>\<newline>''
   @ ''    '' @ styles @ ''\<newline>''
   @ ''    body { font-family: system-ui, sans-serif; padding: 2rem; max-width: 1000px; margin: auto; }\<newline>''
   @ ''    h1, h2 { color: #1a73e8; }\<newline>''
   @ ''    .project-card { border: 1px solid #ccc; padding: 1rem; margin: 1rem 0; border-radius: 8px; }\<newline>''
   @ ''    .tech-tag { background: #eee; padding: 0.3rem 0.6rem; margin: 0.3rem; border-radius: 4px; }\<newline>''
   @ ''    .social-link { margin: 0 0.5rem; color: inherit; text-decoration: none; }\<newline>''
   @ ''  </style>\<newline>''
   @ ''</head>\<newline>''
   @ ''<body>\<newline>''
   @ ''  <header>\<newline>''
   @ ''    <h1>'' @ nm @ ''</h1>\<newline>''
   @ ''    <h2>'' @ ttl @ ''</h2>\<newline>''
   @ ''    <p>'' @ bi @ ''</p>\<newline>''
   @ ''    <p>Email: <a href="mailto:'' @ mail @ ''">'' @ mail @ ''</a></p>\<newline>''
   @ ''    <div>'' @ social @ ''</div>\<newline>''
   @ ''  </header>\<newline>''
   @ ''  <main>\<newline>''
   @ ''    <h2>Projects</h2>\<newline>''
   @ ''    '' @ cards @ ''\<newline>''
   @ ''  </main>\<newline>''
   @ ''</body>\<newline>''
   @ ''</html>''\<close>

definition generateHTML :: "Portfolio \<Rightarrow> error + string" where
  "generateHTML portfolio =
     (case config portfolio of
        None \<Rightarrow> Inl (Error ''Cannot generate HTML for empty portfolio'')
      | Some cfg \<Rightarrow>
          if projects portfolio = []
          then Inl (Error ''Cannot generate HTML for empty portfolio'')
          else
            bindE (mapE projectCard (projects portfolio)) (\<lambda>projectCards.
            bindE (socialLinksHTML cfg) (\<lambda>social.
            bindE (escapeArg (name cfg)) (\<lambda>nm.
            bindE (escapeArg (PortfolioConfig.title cfg)) (\<lambda>ttl.
            bindE (escapeArg (bio cfg)) (\<lambda>bi.
            bindE (escapeArg (email cfg)) (\<lambda>mail.
            Inr (document nm ttl (themeStyles cfg) bi mail social (join [] projectCards)))))))))"

section \<open>User texts and markup characters\<close>

text \<open>
  The user-supplied strings that \<^verbatim>\<open>generateHTML\<close> renders: the four texts of the
  config, the platform and the URL of every social link, and of every project the
  title, the description, the technologies, the url and the image URL when one is set.
\<close>

definition optText :: "string option \<Rightarrow> string list" where
  "optText v = (case v of None \<Rightarrow> [] | Some s \<Rightarrow> [s])"

definition projectTexts :: "Project \<Rightarrow> string list" where
  "projectTexts project =
     optText (Project.title project) @ optText (description project) @ technologies project
     @ optText (url project)
     @ (if falsy (imageUrl project) then [] else optText (imageUrl project))"

definition configTexts :: "PortfolioConfig \<Rightarrow> string list" where
  "configTexts cfg =
     optText (name cfg) @ optText (PortfolioConfig.title cfg) @ optText (bio cfg) @ optText (email cfg)
     @ (case socialLinks cfg of
          None \<Rightarrow> []
        | Some links \<Rightarrow> concat (map (\<lambda>(platform, v). platform # optText v) links))"

definition userTexts :: "Portfolio \<Rightarrow> string list" where
  "userTexts portfolio =
     (case config portfolio of None \<Rightarrow> [] | Some cfg \<Rightarrow> configTexts cfg)
     @ concat (map projectTexts (projects portfolio))"

text \<open>
  The characters that delimit tags and attribute values; and a portfolio of the same
  shape in which every user text is replaced by a placeholder free of them (absent
  values stay absent and empty strings stay empty, so the same branches are taken).
\<close>

definition markup :: "char \<Rightarrow> bool" where
  "markup c = (c = CHR ''<'' \<or> c = CHR ''>'' \<or> c = CHR 0x22 \<or> c = CHR 0x27)"

definition blankText :: "string option \<Rightarrow> string option" where
  "blankText v = map_option (\<lambda>s. if s = [] then [] else ''x'') v"

definition blankProject :: "Project \<Rightarrow> Project" where
  "blankProject project =
     \<lparr>Project.id = blankText (Project.id project),
      title = blankText (Project.title project),
      description = blankText (description project),
      technologies = map (\<lambda>tech. []) (technologies project),
      url = blankText (url project),
      imageUrl = blankText (imageUrl project)\<rparr>"

definition blankConfig :: "PortfolioConfig \<Rightarrow> PortfolioConfig" where
  "blankConfig cfg =
     \<lparr>name = blankText (name cfg),
      title = blankText (PortfolioConfig.title cfg),
      bio = blankText (bio cfg),
      email = blankText (email cfg),
      socialLinks = map_option (map (\<lambda>(platform, v). ([], blankText v))) (socialLinks cfg),
      theme = theme cfg\<rparr>"

definition blankPortfolio :: "Portfolio \<Rightarrow> Portfolio" where
  "blankPortfolio portfolio =
     \<lparr>config = map_option blankConfig (config portfolio),
      projects = map blankProject (projects portfolio)\<rparr>"

text \<open>
  A scanner for the text \<^verbatim>\<open><sc\<close>: a string is \<^term>\<open>clean\<close> when the scanner, started
  idle, ends idle, so the string neither contains that text nor ends inside it.
\<close>

datatype scan = Idle | SeenLt | SeenLtS | Found

fun scanStep :: "scan \<Rightarrow> char \<Rightarrow> scan" where
  "scanStep Found c = Found"
| "scanStep q c =
     (if c = CHR ''<'' then SeenLt
      else if q = SeenLt \<and> c = CHR ''s'' then SeenLtS
      else if q = SeenLtS \<and> c = CHR ''c'' then Found
      else Idle)"

definition clean :: "string \<Rightarrow> bool" where
  "clean s = (foldl scanStep Idle s = Idle)"

text \<open>
  Every ampersand of the string begins one of the five entities of \<^verbatim>\<open>escapeHTML\<close>.
\<close>

definition entityBodies :: "string list" where
  "entityBodies = [''amp;'', ''lt;'', ''gt;'', ''quot;'', ''#039;'']"

fun ampersandsEscaped :: "string \<Rightarrow> bool" where
  "ampersandsEscaped [] = True"
| "ampersandsEscaped (c # cs) =
     ((if c = CHR ''&'' then list_ex (\<lambda>body. prefix body cs) entityBodies else True)
      \<and> ampersandsEscaped cs)"

text \<open>Every value that \<^verbatim>\<open>generateHTML\<close> passes to \<^verbatim>\<open>escapeHTML\<close> is a string.\<close>

definition textsPresent :: "Portfolio \<Rightarrow> bool" where
  "textsPresent portfolio =
     ((case config portfolio of
         None \<Rightarrow> False
       | Some cfg \<Rightarrow>
           name cfg \<noteq> None \<and> PortfolioConfig.title cfg \<noteq> None \<and> bio cfg \<noteq> None \<and> email cfg \<noteq> None
           \<and> (case socialLinks cfg of
                  None \<Rightarrow> True
                | Some links \<Rightarrow> list_all (\<lambda>(platform, v). v \<noteq> None) links))
      \<and> list_all (\<lambda>project. Project.title project \<noteq> None \<and> description project \<noteq> None
                               \<and> url project \<noteq> None)
           (projects portfolio))"

section \<open>Sample data\<close>

text \<open>
  Concrete inputs, taken from the repository's tests and from the scenarios of the
  specification, at which the theorems below are instantiated. \<^term>\<open>sampleValidURL\<close> instantiates the \<open>isValidURL\<close> parameter: it
  accepts the URLs of the tests, all of which \<^verbatim>\<open>new URL\<close> parses, and nothing else;
  the strings used below as invalid URLs have no scheme, so \<^verbatim>\<open>new URL\<close> rejects them
  as well.
\<close>

definition sampleValidURL :: "string \<Rightarrow> bool" where
  "sampleValidURL u =
     (u \<in> set [''https://example.com'', ''https://first.com'', ''https://duplicate.com'',
               ''https://github.com/alice'', ''https://linkedin.com/in/alice'',
               ''https://project.com'', ''https://image.com/project.jpg''])"

definition johnConfig :: PortfolioConfig where
  "johnConfig =
     \<lparr>name = Some ''John Doe'', title = Some ''Web Developer'', bio = Some ''A passionate developer'',
      email = Some ''john@example.com'', socialLinks = None, theme = None\<rparr>"

definition aliceConfig :: PortfolioConfig where
  "aliceConfig =
     \<lparr>name = Some ''Alice'', title = Some ''Developer'', bio = Some ''Full stack developer'',
      email = Some ''alice@example.com'',
      socialLinks = Some [(''github'', Some ''https://github.com/alice''),
                          (''linkedin'', Some ''https://linkedin.com/in/alice'')],
      theme = Some Dark\<rparr>"

definition testProject :: Project where
  "testProject =
     \<lparr>id = Some ''1'', title = Some ''Test Project'', description = Some ''A sample project'',
      technologies = [''React'', ''TypeScript''], url = Some ''https://project.com'',
      imageUrl = Some ''https://image.com/project.jpg''\<rparr>"

definition alicePortfolio :: Portfolio where
  "alicePortfolio = \<lparr>config = Some aliceConfig, projects = [testProject]\<rparr>"

definition scriptProject :: Project where
  "scriptProject = testProject\<lparr>Project.title := Some ''<script>'', description := Some ''a & b''\<rparr>"

definition scriptPortfolio :: Portfolio where
  "scriptPortfolio = \<lparr>config = Some aliceConfig, projects = [scriptProject]\<rparr>"

section \<open>Properties of escapeHTML\<close>

lemma replaceAll_append:
  "replaceAll c r (xs @ ys) = replaceAll c r xs @ replaceAll c r ys"
  by (simp add: replaceAll_def)

lemma replaceAll_Nil: "replaceAll c r [] = []"
  by (simp add: replaceAll_def)

lemma escapeHTML_append: "escapeHTML (xs @ ys) = escapeHTML xs @ escapeHTML ys"
  by (simp add: escapeHTML_def replaceAll_append)

lemma escapeHTML_Nil: "escapeHTML [] = []"
  by (simp add: escapeHTML_def replaceAll_Nil)

lemma escapeHTML_single: "escapeHTML [c] = entity c"
  by (simp add: escapeHTML_def replaceAll_def entity_def)

lemma escapeHTML_Cons: "escapeHTML (c # cs) = entity c @ escapeHTML cs"
  using escapeHTML_append [of "[c]" cs] by (simp add: escapeHTML_single)

lemma escapeHTML_entities: "escapeHTML str = concat (map entity str)"
  by (induction str) (simp_all add: escapeHTML_Nil escapeHTML_Cons)

text \<open>
  C8. \<^verbatim>\<open>escapeHTML\<close> replaces each of the five characters by its entity and leaves
  every other character alone; the ampersands that the later substitutions
  introduce are not escaped again, so \<^verbatim>\<open>escapeHTML("<")\<close> is \<^verbatim>\<open>&lt;\<close> and not
  \<^verbatim>\<open>&amp;lt;\<close>. The function is total on strings.
\<close>

theorem escapeHTML_replaces_five:
  \<open>escapeHTML str = concat (map entity str)
   \<and> entity CHR ''&'' = ''&amp;'' \<and> entity CHR ''<'' = ''&lt;''
   \<and> entity CHR ''>'' = ''&gt;'' \<and> entity (CHR 0x22) = ''&quot;''
   \<and> entity (CHR 0x27) = ''&#039;''
   \<and> (c \<notin> set ''&<>"'' \<and> c \<noteq> CHR 0x27 \<longrightarrow> entity c = [c])
   \<and> escapeHTML ''<'' = ''&lt;'' \<and> escapeHTML ''<'' \<noteq> ''&amp;lt;''
   \<and> escapeHTML ''&lt;'' = ''&amp;lt;''\<close>
  by (simp add: escapeHTML_entities entity_def)

theorem escapeHTML_replaces_five_witness:
  \<open>escapeHTML ''a<b'' = ''a&lt;b'' \<and> entity CHR ''a'' = ''a''\<close>
  using escapeHTML_replaces_five [of "''a<b''" "CHR ''a''"]
  by (simp add: entity_def)

section \<open>Auxiliary facts\<close>

lemma sublist_join: "x \<in> set xs \<Longrightarrow> sublist x (join sep xs)"
proof (induction sep xs rule: join.induct)
  case (1 sep)
  then show ?case by simp
next
  case (2 sep y)
  then show ?case by simp
next
  case (3 sep y z zs)
  show ?case
  proof (cases "x = y")
    case True
    then show ?thesis by simp
  next
    case False
    with 3 have "sublist x (join sep (z # zs))" by simp
    then obtain a b where "join sep (z # zs) = a @ x @ b" by (auto simp: sublist_def)
    then have "join sep (y # z # zs) = (y @ sep @ a) @ x @ b" by simp
    then show ?thesis unfolding sublist_def by blast
  qed
qed

lemma join_Nil_concat: "join [] xs = concat xs"
  by (induction "[] :: string" xs rule: join.induct) simp_all

lemma bindE_Inr: "bindE m f = Inr y \<longleftrightarrow> (\<exists>x. m = Inr x \<and> f x = Inr y)"
  by (cases m) (simp_all add: bindE_def)

section \<open>Properties of createPortfolio\<close>

lemma invalidLinks_offendingPairs:
  "invalidLinks v links = map (\<lambda>(platform, u). platform @ '': '' @ u) (offendingPairs v links)"
  by (induction links)
     (auto simp: invalidLinks_def offendingPairs_def falsy_def toString_def split: option.splits)

text \<open>
  C4. When any of \<^verbatim>\<open>name\<close>, \<^verbatim>\<open>title\<close>, \<^verbatim>\<open>bio\<close>, \<^verbatim>\<open>email\<close> is absent or the empty
  string, \<^verbatim>\<open>createPortfolio\<close> fails with the one combined error, whose message
  contains "requires name, title, bio, and email". When all four are non-empty strings
  and every social link value is absent, empty or a valid URL, it succeeds.
\<close>

theorem createPortfolio_required_fields:
  "(falsy (name cfg) \<or> falsy (PortfolioConfig.title cfg) \<or> falsy (bio cfg) \<or> falsy (email cfg) \<longrightarrow>
      createPortfolio isValidURL cfg =
        Inl (Error ''Portfolio requires name, title, bio, and email in configuration'')
      \<and> sublist ''requires name, title, bio, and email''
                 ''Portfolio requires name, title, bio, and email in configuration'')
   \<and> (\<not> falsy (name cfg) \<and> \<not> falsy (PortfolioConfig.title cfg) \<and> \<not> falsy (bio cfg) \<and> \<not> falsy (email cfg)
        \<and> (\<forall>links. socialLinks cfg = Some links \<longrightarrow>
              (\<forall>(platform, v) \<in> set links. falsy v \<or> isValidURL (toString v))) \<longrightarrow>
      (\<exists>p. createPortfolio isValidURL cfg = Inr p))"
proof -
  have msg: "''Portfolio requires name, title, bio, and email in configuration''
      = ''Portfolio '' @ ''requires name, title, bio, and email'' @ '' in configuration''"
    by simp
  have sub: "sublist ''requires name, title, bio, and email''
                 ''Portfolio requires name, title, bio, and email in configuration''"
    unfolding msg by (rule sublist_appendI)
  have ok: "invalidLinks isValidURL links = []"
    if "\<forall>(platform, v) \<in> set links. falsy v \<or> isValidURL (toString v)" for links
    using that by (auto simp: invalidLinks_def filter_empty_conv)
  show ?thesis
    using sub ok by (auto simp: createPortfolio_def split: option.splits)
qed

theorem createPortfolio_required_fields_witness:
  "createPortfolio sampleValidURL (johnConfig\<lparr>email := None\<rparr>)
     = Inl (Error ''Portfolio requires name, title, bio, and email in configuration'')
   \<and> (\<exists>p. createPortfolio sampleValidURL aliceConfig = Inr p)"
proof -
  have missing: "falsy (email (johnConfig\<lparr>email := None\<rparr>))"
    by (simp add: falsy_def)
  have present: "\<not> falsy (name aliceConfig) \<and> \<not> falsy (PortfolioConfig.title aliceConfig)
      \<and> \<not> falsy (bio aliceConfig) \<and> \<not> falsy (email aliceConfig)
      \<and> (\<forall>links. socialLinks aliceConfig = Some links \<longrightarrow>
            (\<forall>(platform, v) \<in> set links. falsy v \<or> sampleValidURL (toString v)))"
    by (simp add: aliceConfig_def falsy_def sampleValidURL_def toString_def)
  from createPortfolio_required_fields [of "johnConfig\<lparr>email := None\<rparr>" sampleValidURL] missing
  have "createPortfolio sampleValidURL (johnConfig\<lparr>email := None\<rparr>)
     = Inl (Error ''Portfolio requires name, title, bio, and email in configuration'')"
    by simp
  moreover from createPortfolio_required_fields [of aliceConfig sampleValidURL] present
  have "\<exists>p. createPortfolio sampleValidURL aliceConfig = Inr p"
    by simp
  ultimately show ?thesis by (rule conjI)
qed

text \<open>
  C5. When the required fields are present and the social links contain at least one
  non-empty value that is not a valid URL, \<^verbatim>\<open>createPortfolio\<close> fails, and the message
  lists every offending \<^verbatim>\<open>platform: url\<close> pair, in order, joined by a comma and a
  space; an entry whose value is empty or absent is not among the pairs listed.
\<close>

theorem createPortfolio_lists_invalid_links:
  assumes "\<not> falsy (name cfg)" "\<not> falsy (PortfolioConfig.title cfg)"
    "\<not> falsy (bio cfg)" "\<not> falsy (email cfg)"
    and "socialLinks cfg = Some links"
    and "offendingPairs isValidURL links \<noteq> []"
  shows "\<exists>msg. createPortfolio isValidURL cfg = Inl (Error msg)
           \<and> msg = ''Invalid URLs in social links: ''
                    @ join '', '' (map (\<lambda>(platform, u). platform @ '': '' @ u)
                                      (offendingPairs isValidURL links))
           \<and> (\<forall>(platform, u) \<in> set (offendingPairs isValidURL links).
                 sublist (platform @ '': '' @ u) msg)"
proof -
  let ?texts = "map (\<lambda>(platform, u). platform @ '': '' @ u) (offendingPairs isValidURL links)"
  let ?msg = "''Invalid URLs in social links: '' @ join '', '' ?texts"
  have inv: "invalidLinks isValidURL links = ?texts"
    by (rule invalidLinks_offendingPairs)
  with assms(6) have "invalidLinks isValidURL links \<noteq> []" by simp
  with assms inv have res: "createPortfolio isValidURL cfg = Inl (Error ?msg)"
    by (simp add: createPortfolio_def)
  have "sublist (platform @ '': '' @ u) ?msg"
    if "(platform, u) \<in> set (offendingPairs isValidURL links)" for platform u
  proof -
    from that have "platform @ '': '' @ u \<in> set ?texts" by force
    then have "sublist (platform @ '': '' @ u) (join '', '' ?texts)" by (rule sublist_join)
    then obtain a b where "join '', '' ?texts = a @ (platform @ '': '' @ u) @ b"
      by (auto simp: sublist_def)
    then have "?msg = (''Invalid URLs in social links: '' @ a) @ (platform @ '': '' @ u) @ b"
      by simp
    then show ?thesis unfolding sublist_def by blast
  qed
  with res show ?thesis by blast
qed

theorem createPortfolio_lists_invalid_links_witness:
  "createPortfolio sampleValidURL
     (johnConfig\<lparr>socialLinks := Some [(''github'', Some ''not-a-url''), (''linkedin'', Some []),
                                       (''twitter'', Some ''also bad'')]\<rparr>)
   = Inl (Error ''Invalid URLs in social links: github: not-a-url, twitter: also bad'')"
proof -
  let ?links = "[(''github'', Some ''not-a-url''), (''linkedin'', Some []), (''twitter'', Some ''also bad'')]"
  let ?cfg = "johnConfig\<lparr>socialLinks := Some ?links\<rparr>"
  have off: "offendingPairs sampleValidURL ?links = [(''github'', ''not-a-url''), (''twitter'', ''also bad'')]"
    by (simp add: offendingPairs_def sampleValidURL_def)
  have h: "\<not> falsy (name ?cfg)" "\<not> falsy (PortfolioConfig.title ?cfg)"
      "\<not> falsy (bio ?cfg)" "\<not> falsy (email ?cfg)" "socialLinks ?cfg = Some ?links"
      "offendingPairs sampleValidURL ?links \<noteq> []"
    by (simp_all add: johnConfig_def falsy_def off)
  from createPortfolio_lists_invalid_links [OF h] off show ?thesis
    by simp
qed

text \<open>
  C6. The portfolio that \<^verbatim>\<open>createPortfolio\<close> returns has the theme of the input when
  one was supplied and \<^verbatim>\<open>light\<close> when it was absent; its theme is always one of the
  two values and never absent.
\<close>

theorem createPortfolio_theme:
  assumes "createPortfolio isValidURL cfg = Inr p"
  shows "\<exists>c. config p = Some c
           \<and> (\<forall>t. theme cfg = Some t \<longrightarrow> theme c = Some t)
           \<and> (theme cfg = None \<longrightarrow> theme c = Some Light)
           \<and> (theme c = Some Light \<or> theme c = Some Dark)
           \<and> projects p = []"
proof -
  let ?c = "cfg\<lparr>theme := Some (case theme cfg of None \<Rightarrow> Light | Some t \<Rightarrow> t)\<rparr>"
  from assms have p: "p = \<lparr>config = Some ?c, projects = []\<rparr>"
    by (auto simp: createPortfolio_def split: if_splits option.splits)
  have "theme ?c = Some Light \<or> theme ?c = Some Dark"
    by (cases "theme cfg"; simp) (metis Theme.exhaust)
  then show ?thesis using p by (auto split: option.splits)
qed

theorem createPortfolio_theme_witness:
  "\<exists>p c. createPortfolio sampleValidURL johnConfig = Inr p \<and> config p = Some c \<and> theme c = Some Light"
proof -
  obtain p where p: "createPortfolio sampleValidURL johnConfig = Inr p"
    by (simp add: createPortfolio_def johnConfig_def falsy_def)
  have "theme johnConfig = None" by (simp add: johnConfig_def)
  with createPortfolio_theme [OF p] obtain c where "config p = Some c" "theme c = Some Light"
    by auto
  with p show ?thesis by blast
qed

section \<open>Properties of addProject\<close>

text \<open>
  C2. The error that \<^verbatim>\<open>addProject\<close> raises is that of the first failing check, in the
  order: required fields, duplicate id, url validity, imageUrl validity.
\<close>

theorem addProject_check_order:
  \<open>(falsy (Project.id project) \<or> falsy (Project.title project)
      \<or> falsy (description project) \<or> falsy (url project) \<longrightarrow>
     fst (addProject isValidURL portfolio project)
       = Inl (Error ''Project requires id, title, description, and url''))
   \<and> (\<not> (falsy (Project.id project) \<or> falsy (Project.title project)
          \<or> falsy (description project) \<or> falsy (url project)) \<longrightarrow>
       ((\<exists>p \<in> set (projects portfolio). Project.id p = Project.id project) \<longrightarrow>
          fst (addProject isValidURL portfolio project)
            = Inl (Error (''Project with ID "'' @ toString (Project.id project) @ ''" already exists'')))
       \<and> (\<not> (\<exists>p \<in> set (projects portfolio). Project.id p = Project.id project) \<longrightarrow>
           (\<not> isValidURL (toString (url project)) \<longrightarrow>
              fst (addProject isValidURL portfolio project)
                = Inl (Error (''Invalid URL in project "'' @ toString (Project.title project)
                              @ ''": '' @ toString (url project))))
           \<and> (isValidURL (toString (url project)) \<longrightarrow>
               (\<not> falsy (imageUrl project) \<and> \<not> isValidURL (toString (imageUrl project)) \<longrightarrow>
                  fst (addProject isValidURL portfolio project)
                    = Inl (Error (''Invalid image URL in project "'' @ toString (Project.title project)
                                  @ ''": '' @ toString (imageUrl project))))
               \<and> (falsy (imageUrl project) \<or> isValidURL (toString (imageUrl project)) \<longrightarrow>
                    fst (addProject isValidURL portfolio project) = Inr ()))))\<close>
  by (simp add: addProject_def list_ex_iff)

theorem addProject_check_order_witness:
  \<open>fst (addProject sampleValidURL alicePortfolio
          (testProject\<lparr>description := None, url := Some ''not-a-url''\<rparr>))
     = Inl (Error ''Project requires id, title, description, and url'')
   \<and> fst (addProject sampleValidURL alicePortfolio (testProject\<lparr>url := Some ''not-a-url''\<rparr>))
     = Inl (Error ''Project with ID "1" already exists'')
   \<and> fst (addProject sampleValidURL alicePortfolio
            (testProject\<lparr>Project.id := Some ''2'', url := Some ''not-a-url'', imageUrl := Some ''nope''\<rparr>))
     = Inl (Error ''Invalid URL in project "Test Project": not-a-url'')
   \<and> fst (addProject sampleValidURL alicePortfolio
            (testProject\<lparr>Project.id := Some ''2'', imageUrl := Some ''nope''\<rparr>))
     = Inl (Error ''Invalid image URL in project "Test Project": nope'')
   \<and> fst (addProject sampleValidURL alicePortfolio (testProject\<lparr>Project.id := Some ''2''\<rparr>))
     = Inr ()\<close>
proof -
  note defs = alicePortfolio_def testProject_def falsy_def toString_def sampleValidURL_def
  from addProject_check_order
    [of "testProject\<lparr>description := None, url := Some ''not-a-url''\<rparr>" sampleValidURL alicePortfolio]
  have 1: "fst (addProject sampleValidURL alicePortfolio
          (testProject\<lparr>description := None, url := Some ''not-a-url''\<rparr>))
     = Inl (Error ''Project requires id, title, description, and url'')"
    by (simp add: defs)
  from addProject_check_order
    [of "testProject\<lparr>url := Some ''not-a-url''\<rparr>" sampleValidURL alicePortfolio]
  have 2: \<open>fst (addProject sampleValidURL alicePortfolio (testProject\<lparr>url := Some ''not-a-url''\<rparr>))
     = Inl (Error ''Project with ID "1" already exists'')\<close>
    by (simp add: defs)
  from addProject_check_order
    [of "testProject\<lparr>Project.id := Some ''2'', url := Some ''not-a-url'', imageUrl := Some ''nope''\<rparr>"
        sampleValidURL alicePortfolio]
  have 3: \<open>fst (addProject sampleValidURL alicePortfolio
            (testProject\<lparr>Project.id := Some ''2'', url := Some ''not-a-url'', imageUrl := Some ''nope''\<rparr>))
     = Inl (Error ''Invalid URL in project "Test Project": not-a-url'')\<close>
    by (simp add: defs)
  from addProject_check_order
    [of "testProject\<lparr>Project.id := Some ''2'', imageUrl := Some ''nope''\<rparr>" sampleValidURL alicePortfolio]
  have 4: \<open>fst (addProject sampleValidURL alicePortfolio
            (testProject\<lparr>Project.id := Some ''2'', imageUrl := Some ''nope''\<rparr>))
     = Inl (Error ''Invalid image URL in project "Test Project": nope'')\<close>
    by (simp add: defs)
  from addProject_check_order
    [of "testProject\<lparr>Project.id := Some ''2''\<rparr>" sampleValidURL alicePortfolio]
  have 5: "fst (addProject sampleValidURL alicePortfolio (testProject\<lparr>Project.id := Some ''2''\<rparr>))
     = Inr ()"
    by (simp add: defs)
  from 1 2 3 4 5 show ?thesis by (intro conjI)
qed

text \<open>
  C3. \<^verbatim>\<open>addProject\<close> is atomic: a call that fails leaves the portfolio exactly as it
  was, and only a successful call changes the project list, by appending the project.
  In particular a call with an unparsable url fails and leaves the length unchanged.
\<close>

theorem addProject_atomic:
  "(\<forall>e. fst (addProject isValidURL portfolio project) = Inl e \<longrightarrow>
        snd (addProject isValidURL portfolio project) = portfolio)
   \<and> (fst (addProject isValidURL portfolio project) = Inr () \<longrightarrow>
        snd (addProject isValidURL portfolio project)
          = portfolio\<lparr>projects := projects portfolio @ [project]\<rparr>)
   \<and> (\<not> isValidURL (toString (url project)) \<longrightarrow>
        (\<exists>e. fst (addProject isValidURL portfolio project) = Inl e)
        \<and> length (projects (snd (addProject isValidURL portfolio project)))
            = length (projects portfolio))"
  by (simp add: addProject_def)

theorem addProject_atomic_witness:
  "snd (addProject sampleValidURL alicePortfolio (testProject\<lparr>url := Some ''not-a-url''\<rparr>))
     = alicePortfolio
   \<and> snd (addProject sampleValidURL alicePortfolio (testProject\<lparr>Project.id := Some ''2''\<rparr>))
     = alicePortfolio\<lparr>projects := [testProject, testProject\<lparr>Project.id := Some ''2''\<rparr>]\<rparr>"
proof -
  note defs = alicePortfolio_def testProject_def falsy_def toString_def sampleValidURL_def
  have fails: "\<exists>e. fst (addProject sampleValidURL alicePortfolio (testProject\<lparr>url := Some ''not-a-url''\<rparr>))
     = Inl e"
    by (simp add: addProject_def defs)
  have succeeds: "fst (addProject sampleValidURL alicePortfolio (testProject\<lparr>Project.id := Some ''2''\<rparr>))
     = Inr ()"
    by (simp add: addProject_def defs)
  from addProject_atomic
    [of sampleValidURL alicePortfolio "testProject\<lparr>url := Some ''not-a-url''\<rparr>"] fails
  have 1: "snd (addProject sampleValidURL alicePortfolio (testProject\<lparr>url := Some ''not-a-url''\<rparr>))
     = alicePortfolio"
    by auto
  from addProject_atomic
    [of sampleValidURL alicePortfolio "testProject\<lparr>Project.id := Some ''2''\<rparr>"] succeeds
  have 2: "snd (addProject sampleValidURL alicePortfolio (testProject\<lparr>Project.id := Some ''2''\<rparr>))
     = alicePortfolio\<lparr>projects := [testProject, testProject\<lparr>Project.id := Some ''2''\<rparr>]\<rparr>"
    by (simp add: alicePortfolio_def)
  from 1 2 show ?thesis by (rule conjI)
qed

lemma addProject_cases:
  "addProject v p x = (Inr (), p\<lparr>projects := projects p @ [x]\<rparr>)
      \<and> Project.id x \<notin> Project.id ` set (projects p)
   \<or> (\<exists>e. addProject v p x = (Inl e, p))"
  by (auto simp: addProject_def list_ex_iff)

lemma addProjectCalls_length:
  "addProjectCalls v p calls = (outcomes, p') \<Longrightarrow> length outcomes = length calls"
  by (induction calls arbitrary: p outcomes p') (auto split: prod.splits)

lemma addProjectCalls_appends:
  "addProjectCalls v p calls = (outcomes, p') \<Longrightarrow>
     p' = p\<lparr>projects := projects p @ succeeded calls outcomes\<rparr>"
proof (induction calls arbitrary: p outcomes p')
  case Nil
  then show ?case by (simp add: succeeded_def)
next
  case (Cons x calls)
  obtain r q where step: "addProject v p x = (r, q)" by (cases "addProject v p x")
  obtain rs q' where rest: "addProjectCalls v q calls = (rs, q')"
    by (cases "addProjectCalls v q calls")
  from Cons.prems step rest have out: "outcomes = r # rs" "p' = q'" by simp_all
  from Cons.IH [OF rest] have q': "q' = q\<lparr>projects := projects q @ succeeded calls rs\<rparr>" .
  from addProject_cases [of v p x] show ?case
  proof
    assume "addProject v p x = (Inr (), p\<lparr>projects := projects p @ [x]\<rparr>)
      \<and> Project.id x \<notin> Project.id ` set (projects p)"
    with step have "r = Inr ()" "q = p\<lparr>projects := projects p @ [x]\<rparr>" by simp_all
    with out q' show ?thesis by (simp add: succeeded_def)
  next
    assume "\<exists>e. addProject v p x = (Inl e, p)"
    with step obtain e where "r = Inl e" "q = p" by auto
    with out q' show ?thesis by (simp add: succeeded_def)
  qed
qed

lemma addProjectCalls_distinct:
  "addProjectCalls v p calls = (outcomes, p') \<Longrightarrow>
     distinct (map Project.id (projects p)) \<Longrightarrow> distinct (map Project.id (projects p'))"
proof (induction calls arbitrary: p outcomes p')
  case Nil
  then show ?case by simp
next
  case (Cons x calls)
  obtain r q where step: "addProject v p x = (r, q)" by (cases "addProject v p x")
  obtain rs q' where rest: "addProjectCalls v q calls = (rs, q')"
    by (cases "addProjectCalls v q calls")
  from Cons.prems(1) step rest have out: "p' = q'" by simp
  from addProject_cases [of v p x] step Cons.prems(2)
  have "distinct (map Project.id (projects q))" by auto
  from Cons.IH [OF rest this] out show ?case by simp
qed

text \<open>
  C10. In a portfolio obtained from \<^verbatim>\<open>createPortfolio\<close> by any sequence of
  \<^verbatim>\<open>addProject\<close> calls, the project list is exactly the projects of the successful
  calls, in call order, and their ids are pairwise distinct.
\<close>

theorem projects_are_successful_calls_in_order:
  assumes "createPortfolio isValidURL cfg = Inr p0"
    and "addProjectCalls isValidURL p0 calls = (outcomes, p)"
  shows "projects p = succeeded calls outcomes
         \<and> distinct (map Project.id (projects p))
         \<and> length outcomes = length calls
         \<and> config p = config p0"
proof -
  from assms(1) have empty: "projects p0 = []"
    by (auto simp: createPortfolio_def split: if_splits option.splits)
  from addProjectCalls_appends [OF assms(2)] empty
  have "projects p = succeeded calls outcomes" "config p = config p0" by simp_all
  moreover from addProjectCalls_distinct [OF assms(2)] empty
  have "distinct (map Project.id (projects p))" by simp
  moreover note addProjectCalls_length [OF assms(2)]
  ultimately show ?thesis by simp
qed

theorem projects_are_successful_calls_in_order_witness:
  "\<exists>p0 outcomes p.
     createPortfolio sampleValidURL aliceConfig = Inr p0
     \<and> addProjectCalls sampleValidURL p0
          [testProject, testProject\<lparr>Project.title := Some ''Duplicate''\<rparr>,
           testProject\<lparr>Project.id := Some ''2''\<rparr>] = (outcomes, p)
     \<and> projects p = [testProject, testProject\<lparr>Project.id := Some ''2''\<rparr>]
     \<and> distinct (map Project.id (projects p))"
proof -
  note defs = testProject_def falsy_def toString_def sampleValidURL_def
  let ?calls = "[testProject, testProject\<lparr>Project.title := Some ''Duplicate''\<rparr>,
           testProject\<lparr>Project.id := Some ''2''\<rparr>]"
  obtain p0 where p0: "createPortfolio sampleValidURL aliceConfig = Inr p0"
    and p0_eq: "p0 = \<lparr>config = Some aliceConfig, projects = []\<rparr>"
    by (simp add: createPortfolio_def aliceConfig_def invalidLinks_def defs)
  obtain outcomes p where run: "addProjectCalls sampleValidURL p0 ?calls = (outcomes, p)"
    by (cases "addProjectCalls sampleValidURL p0 ?calls")
  from run have outcomes: "outcomes = [Inr (), Inl (Error (''Project with ID '' @ [CHR 0x22] @ ''1'' @ [CHR 0x22] @ '' already exists'')), Inr ()]"
    by (simp add: p0_eq addProject_def defs)
  note result = projects_are_successful_calls_in_order [OF p0 run]
  from result [THEN conjunct1] outcomes
  have "projects p = [testProject, testProject\<lparr>Project.id := Some ''2''\<rparr>]"
    by (simp add: succeeded_def)
  with p0 run result [THEN conjunct2, THEN conjunct1] show ?thesis by blast
qed

section \<open>Properties of generateHTML\<close>

lemma generateHTML_Inr:
  assumes "generateHTML p = Inr html"
  shows "\<exists>cfg cards social nm ttl bi mail.
           config p = Some cfg \<and> projects p \<noteq> []
           \<and> mapE projectCard (projects p) = Inr cards
           \<and> socialLinksHTML cfg = Inr social
           \<and> escapeArg (name cfg) = Inr nm
           \<and> escapeArg (PortfolioConfig.title cfg) = Inr ttl
           \<and> escapeArg (bio cfg) = Inr bi
           \<and> escapeArg (email cfg) = Inr mail
           \<and> html = document nm ttl (themeStyles cfg) bi mail social (join [] cards)"
proof (cases "config p")
  case None
  with assms show ?thesis by (simp add: generateHTML_def)
next
  case (Some cfg)
  with assms have ne: "projects p \<noteq> []"
    by (auto simp: generateHTML_def)
  with assms Some show ?thesis
    by (simp add: generateHTML_def bindE_Inr) blast
qed

lemma document_style_rule:
  "\<exists>pre post. document nm ttl styles bi mail social cards =
     pre @ ''  <style>\<newline>'' @ ''    '' @ styles @ ''\<newline>'' @ post"
proof -
  have \<open>\<exists>post. document nm ttl styles bi mail social cards =
     (''<!DOCTYPE html>\<newline>''
     @ ''<html lang="en">\<newline>''
     @ ''<head>\<newline>''
     @ ''  <meta charset="UTF-8">\<newline>''
     @ ''  <meta name="viewport" content="width=device-width, initial-scale=1.0">\<newline>''
     @ ''  <title>'' @ nm @ '' - '' @ ttl @ ''</title>\<newline>'')
     @ ''  <style>\<newline>'' @ ''    '' @ styles @ ''\<newline>'' @ post\<close>
    unfolding document_def by (simp only: append_assoc) blast
  then show ?thesis by blast
qed

text \<open>
  C9. The document that \<^verbatim>\<open>generateHTML\<close> returns contains the theme rule as the
  first rule of its stylesheet: the dark rule when the theme is \<^verbatim>\<open>dark\<close>, the light
  rule otherwise, and the two rules differ.
\<close>

theorem generateHTML_theme_rule:
  assumes "generateHTML p = Inr html"
  shows "\<exists>cfg pre post.
           config p = Some cfg
           \<and> html = pre @ ''  <style>\<newline>'' @ ''    '' @ themeStyles cfg @ ''\<newline>'' @ post
           \<and> sublist (themeStyles cfg) html
           \<and> (theme cfg = Some Dark \<longrightarrow>
                themeStyles cfg = ''body { background: #121212; color: #ffffff; }'')
           \<and> (theme cfg \<noteq> Some Dark \<longrightarrow>
                themeStyles cfg = ''body { background: #ffffff; color: #000000; }'')
           \<and> ''body { background: #121212; color: #ffffff; }''
                \<noteq> ''body { background: #ffffff; color: #000000; }''"
proof -
  from generateHTML_Inr [OF assms] obtain cfg cards social nm ttl bi mail where
    cfg: "config p = Some cfg"
    and html: "html = document nm ttl (themeStyles cfg) bi mail social (join [] cards)"
    by blast
  from document_style_rule [of nm ttl "themeStyles cfg" bi mail social "join [] cards"] html
  obtain pre post where
    split: "html = pre @ ''  <style>\<newline>'' @ ''    '' @ themeStyles cfg @ ''\<newline>'' @ post"
    by blast
  then have "html = (pre @ ''  <style>\<newline>'' @ ''    '') @ themeStyles cfg @ (''\<newline>'' @ post)"
    by (simp only: append_assoc)
  then have sub: "sublist (themeStyles cfg) html"
    unfolding sublist_def by blast
  have rule: "(theme cfg = Some Dark \<longrightarrow>
                themeStyles cfg = ''body { background: #121212; color: #ffffff; }'')
           \<and> (theme cfg \<noteq> Some Dark \<longrightarrow>
                themeStyles cfg = ''body { background: #ffffff; color: #000000; }'')"
    by (simp add: themeStyles_def)
  have diff: "''body { background: #121212; color: #ffffff; }''
                \<noteq> ''body { background: #ffffff; color: #000000; }''"
    by simp
  show ?thesis
    apply (rule exI [of _ cfg], rule exI [of _ pre], rule exI [of _ post])
    apply (intro conjI)
    apply (rule cfg)
    apply (rule split)
    apply (rule sub)
    apply (rule rule [THEN conjunct1])
    apply (rule rule [THEN conjunct2])
    apply (rule diff)
    done
qed

lemma generateHTML_alicePortfolio: "\<exists>html. generateHTML alicePortfolio = Inr html"
  by (simp add: generateHTML_def alicePortfolio_def aliceConfig_def testProject_def bindE_def
        projectCard_def projectImage_def socialLinksHTML_def socialLink_def escapeArg_def falsy_def)

theorem generateHTML_theme_rule_witness:
  "\<exists>html. generateHTML alicePortfolio = Inr html
     \<and> sublist ''body { background: #121212; color: #ffffff; }'' html"
proof -
  from generateHTML_alicePortfolio obtain html where html: "generateHTML alicePortfolio = Inr html" ..
  from generateHTML_theme_rule [OF html] obtain cfg where
    cfg: "config alicePortfolio = Some cfg" and sub: "sublist (themeStyles cfg) html"
    and dark: "theme cfg = Some Dark \<longrightarrow> themeStyles cfg = ''body { background: #121212; color: #ffffff; }''"
    by blast
  from cfg have "theme cfg = Some Dark" by (auto simp: alicePortfolio_def aliceConfig_def)
  with dark sub have "sublist ''body { background: #121212; color: #ffffff; }'' html" by simp
  with html show ?thesis by (intro exI conjI)
qed

subsection \<open>Markup characters come from the template only\<close>

lemma markup_entity: "filter markup (entity c) = []"
  by (simp add: entity_def markup_def)

lemma markup_escapeHTML: "filter markup (escapeHTML s) = []"
  by (induction s) (simp_all add: escapeHTML_Nil escapeHTML_Cons markup_entity)

lemma escapeArg_blank:
  "escapeArg v = Inr s \<Longrightarrow>
     \<exists>s0. escapeArg (blankText v) = Inr s0 \<and> filter markup s = filter markup s0"
  by (auto simp: escapeArg_def blankText_def markup_escapeHTML split: option.splits)

lemma falsy_blank: "falsy (blankText v) = falsy v"
  by (auto simp: falsy_def blankText_def split: option.splits)

lemma markup_imageTemplate:
  "filter markup a = filter markup a0 \<Longrightarrow> filter markup b = filter markup b0 \<Longrightarrow>
     filter markup (imageTemplate a b) = filter markup (imageTemplate a0 b0)"
  unfolding imageTemplate_def by (simp only: filter_append)

lemma markup_cardTemplate:
  "filter markup a = filter markup a0 \<Longrightarrow> filter markup b = filter markup b0 \<Longrightarrow>
   filter markup c = filter markup c0 \<Longrightarrow> filter markup d = filter markup d0 \<Longrightarrow>
   filter markup e = filter markup e0 \<Longrightarrow>
     filter markup (cardTemplate a b c d e) = filter markup (cardTemplate a0 b0 c0 d0 e0)"
  unfolding cardTemplate_def by (simp only: filter_append)

lemma markup_linkTemplate:
  "filter markup a = filter markup a0 \<Longrightarrow> filter markup b = filter markup b0 \<Longrightarrow>
     filter markup (linkTemplate a b) = filter markup (linkTemplate a0 b0)"
  unfolding linkTemplate_def by (simp only: filter_append)

lemma markup_document:
  "filter markup a = filter markup a0 \<Longrightarrow> filter markup b = filter markup b0 \<Longrightarrow>
   filter markup c = filter markup c0 \<Longrightarrow> filter markup d = filter markup d0 \<Longrightarrow>
   filter markup e = filter markup e0 \<Longrightarrow> filter markup f = filter markup f0 \<Longrightarrow>
     filter markup (document a b s c d e f) = filter markup (document a0 b0 s c0 d0 e0 f0)"
  unfolding document_def by (simp only: filter_append)

lemma projectImage_blank:
  assumes "projectImage project = Inr img"
  shows "\<exists>img0. projectImage (blankProject project) = Inr img0
           \<and> filter markup img = filter markup img0"
proof (cases "falsy (imageUrl project)")
  case True
  with assms show ?thesis by (simp add: projectImage_def blankProject_def falsy_blank)
next
  case False
  with assms obtain src alt where
    src: "escapeArg (imageUrl project) = Inr src"
    and alt: "escapeArg (Project.title project) = Inr alt"
    and img: "img = imageTemplate src alt"
    by (auto simp: projectImage_def bindE_Inr)
  from escapeArg_blank [OF src] obtain src0 where
    src0: "escapeArg (blankText (imageUrl project)) = Inr src0" "filter markup src = filter markup src0"
    by blast
  from escapeArg_blank [OF alt] obtain alt0 where
    alt0: "escapeArg (blankText (Project.title project)) = Inr alt0" "filter markup alt = filter markup alt0"
    by blast
  from False src0 alt0 have "projectImage (blankProject project) = Inr (imageTemplate src0 alt0)"
    by (simp add: projectImage_def blankProject_def falsy_blank bindE_def)
  moreover have "filter markup img = filter markup (imageTemplate src0 alt0)"
    unfolding img by (rule markup_imageTemplate [OF src0(2) alt0(2)])
  ultimately show ?thesis by blast
qed

lemma markup_techTag: "filter markup (techTag tech) = filter markup (techTag [])"
  unfolding techTag_def by (simp only: filter_append markup_escapeHTML)

lemma markup_techTags:
  "filter markup (join [] (map techTag (map (\<lambda>tech. []) techs)))
     = filter markup (join [] (map techTag techs))"
proof (induction techs)
  case Nil
  show ?case by simp
next
  case (Cons tech techs)
  have "filter markup (concat (map techTag (map (\<lambda>tech. []) (tech # techs))))
      = filter markup (techTag []) @ filter markup (concat (map techTag (map (\<lambda>tech. []) techs)))"
    by (simp only: list.map concat.simps filter_append)
  also have "\<dots> = filter markup (techTag tech) @ filter markup (concat (map techTag techs))"
    using Cons.IH markup_techTag [of tech] by (simp only: join_Nil_concat)
  also have "\<dots> = filter markup (concat (map techTag (tech # techs)))"
    by (simp only: list.map concat.simps filter_append)
  finally show ?case by (simp only: join_Nil_concat)
qed

lemma projectCard_Inr:
  assumes "projectCard project = Inr html"
  shows "\<exists>t d u img.
           escapeArg (Project.title project) = Inr t
           \<and> escapeArg (description project) = Inr d
           \<and> escapeArg (url project) = Inr u
           \<and> projectImage project = Inr img
           \<and> html = cardTemplate t d (join [] (map techTag (technologies project))) u img"
  using assms by (simp add: projectCard_def bindE_Inr) blast

lemma projectCard_blank:
  assumes "projectCard project = Inr html"
  shows "\<exists>html0. projectCard (blankProject project) = Inr html0
           \<and> filter markup html = filter markup html0"
proof -
  let ?tags = "join [] (map techTag (technologies project))"
  let ?blank_tags = "join [] (map techTag (map (\<lambda>tech. []) (technologies project)))"
  from projectCard_Inr [OF assms] obtain t d u img where
    t: "escapeArg (Project.title project) = Inr t"
    and d: "escapeArg (description project) = Inr d"
    and u: "escapeArg (url project) = Inr u"
    and img: "projectImage project = Inr img"
    and html: "html = cardTemplate t d ?tags u img"
    by blast
  from escapeArg_blank [OF t] obtain t0 where
    t0: "escapeArg (blankText (Project.title project)) = Inr t0" "filter markup t = filter markup t0"
    by blast
  from escapeArg_blank [OF d] obtain d0 where
    d0: "escapeArg (blankText (description project)) = Inr d0" "filter markup d = filter markup d0"
    by blast
  from escapeArg_blank [OF u] obtain u0 where
    u0: "escapeArg (blankText (url project)) = Inr u0" "filter markup u = filter markup u0"
    by blast
  from projectImage_blank [OF img] obtain img0 where
    img0: "projectImage (blankProject project) = Inr img0" "filter markup img = filter markup img0"
    by blast
  have sel: "Project.title (blankProject project) = blankText (Project.title project)"
    "description (blankProject project) = blankText (description project)"
    "url (blankProject project) = blankText (url project)"
    "technologies (blankProject project) = map (\<lambda>tech. []) (technologies project)"
    by (simp_all add: blankProject_def)
  from t0 d0 u0 img0 have "projectCard (blankProject project) = Inr (cardTemplate t0 d0 ?blank_tags u0 img0)"
    by (simp add: projectCard_def sel bindE_def)
  moreover have "filter markup html = filter markup (cardTemplate t0 d0 ?blank_tags u0 img0)"
    unfolding html
    by (rule markup_cardTemplate [OF t0(2) d0(2) markup_techTags [symmetric] u0(2) img0(2)])
  ultimately show ?thesis by blast
qed

lemma mapE_Inr_Cons:
  "mapE f (x # xs) = Inr zs \<longleftrightarrow> (\<exists>y ys. f x = Inr y \<and> mapE f xs = Inr ys \<and> zs = y # ys)"
  by (auto simp: bindE_Inr)

lemma projectCards_blank:
  "mapE projectCard ps = Inr cards \<Longrightarrow>
     \<exists>cards0. mapE projectCard (map blankProject ps) = Inr cards0
        \<and> filter markup (concat cards) = filter markup (concat cards0)"
proof (induction ps arbitrary: cards)
  case Nil
  then show ?case by simp
next
  case (Cons p ps)
  from Cons.prems obtain y ys where
    y: "projectCard p = Inr y" and ys: "mapE projectCard ps = Inr ys" and cards: "cards = y # ys"
    by (auto simp: bindE_Inr)
  from projectCard_blank [OF y] obtain y0 where
    y0: "projectCard (blankProject p) = Inr y0" "filter markup y = filter markup y0"
    by blast
  from Cons.IH [OF ys] obtain ys0 where
    ys0: "mapE projectCard (map blankProject ps) = Inr ys0"
      "filter markup (concat ys) = filter markup (concat ys0)"
    by blast
  from y0 ys0 have "mapE projectCard (map blankProject (p # ps)) = Inr (y0 # ys0)"
    by (simp add: bindE_def)
  moreover from cards y0 ys0 have "filter markup (concat cards) = filter markup (concat (y0 # ys0))"
    by simp
  ultimately show ?case by blast
qed

lemma socialLink_blank:
  assumes "socialLink entry = Inr html"
  shows "\<exists>html0. socialLink ((\<lambda>(platform, v). ([], blankText v)) entry) = Inr html0
           \<and> filter markup html = filter markup html0"
proof -
  obtain platform v where entry: "entry = (platform, v)" by (cases entry)
  with assms obtain u where u: "escapeArg v = Inr u"
    and html: "html = linkTemplate u (escapeHTML platform)"
    by (auto simp: socialLink_def bindE_Inr)
  from escapeArg_blank [OF u] obtain u0 where
    u0: "escapeArg (blankText v) = Inr u0" "filter markup u = filter markup u0"
    by blast
  from entry u0 have "socialLink ((\<lambda>(platform, v). ([], blankText v)) entry)
      = Inr (linkTemplate u0 (escapeHTML []))"
    by (simp add: socialLink_def bindE_def)
  moreover have "filter markup html = filter markup (linkTemplate u0 (escapeHTML []))"
    unfolding html by (rule markup_linkTemplate) (simp_all add: u0 markup_escapeHTML)
  ultimately show ?thesis by blast
qed

lemma socialLinks_blank:
  "mapE socialLink links = Inr anchors \<Longrightarrow>
     \<exists>anchors0. mapE socialLink (map (\<lambda>(platform, v). ([], blankText v)) links) = Inr anchors0
        \<and> filter markup (concat anchors) = filter markup (concat anchors0)"
proof (induction links arbitrary: anchors)
  case Nil
  then show ?case by simp
next
  case (Cons l links)
  from Cons.prems obtain y ys where
    y: "socialLink l = Inr y" and ys: "mapE socialLink links = Inr ys" and anchors: "anchors = y # ys"
    by (auto simp: bindE_Inr)
  from socialLink_blank [OF y] obtain y0 where
    y0: "socialLink ((\<lambda>(platform, v). ([], blankText v)) l) = Inr y0"
      "filter markup y = filter markup y0"
    by blast
  from Cons.IH [OF ys] obtain ys0 where
    ys0: "mapE socialLink (map (\<lambda>(platform, v). ([], blankText v)) links) = Inr ys0"
      "filter markup (concat ys) = filter markup (concat ys0)"
    by blast
  from y0 ys0 have "mapE socialLink (map (\<lambda>(platform, v). ([], blankText v)) (l # links))
      = Inr (y0 # ys0)"
    by (simp add: bindE_def)
  moreover from anchors y0 ys0
  have "filter markup (concat anchors) = filter markup (concat (y0 # ys0))"
    by simp
  ultimately show ?case by blast
qed

lemma socialLinksHTML_blank:
  assumes "socialLinksHTML cfg = Inr social"
  shows "\<exists>social0. socialLinksHTML (blankConfig cfg) = Inr social0
           \<and> filter markup social = filter markup social0"
proof (cases "socialLinks cfg")
  case None
  with assms show ?thesis by (simp add: socialLinksHTML_def blankConfig_def)
next
  case (Some links)
  with assms obtain anchors where
    anchors: "mapE socialLink links = Inr anchors" and social: "social = join [] anchors"
    by (auto simp: socialLinksHTML_def bindE_Inr)
  from socialLinks_blank [OF anchors] obtain anchors0 where
    a0: "mapE socialLink (map (\<lambda>(platform, v). ([], blankText v)) links) = Inr anchors0"
      "filter markup (concat anchors) = filter markup (concat anchors0)"
    by blast
  from Some a0 have "socialLinksHTML (blankConfig cfg) = Inr (join [] anchors0)"
    by (simp add: socialLinksHTML_def blankConfig_def bindE_def)
  with social a0 show ?thesis by (simp add: join_Nil_concat)
qed

lemma generateHTML_blank:
  assumes "generateHTML p = Inr html"
  shows "\<exists>html0. generateHTML (blankPortfolio p) = Inr html0
           \<and> filter markup html = filter markup html0"
proof -
  from generateHTML_Inr [OF assms] obtain cfg cards social nm ttl bi mail where
    cfg: "config p = Some cfg" and ne: "projects p \<noteq> []"
    and cards: "mapE projectCard (projects p) = Inr cards"
    and social: "socialLinksHTML cfg = Inr social"
    and nm: "escapeArg (name cfg) = Inr nm"
    and ttl: "escapeArg (PortfolioConfig.title cfg) = Inr ttl"
    and bi: "escapeArg (bio cfg) = Inr bi"
    and mail: "escapeArg (email cfg) = Inr mail"
    and html: "html = document nm ttl (themeStyles cfg) bi mail social (join [] cards)"
    by blast
  from projectCards_blank [OF cards] obtain cards0 where
    cards0: "mapE projectCard (map blankProject (projects p)) = Inr cards0"
      "filter markup (concat cards) = filter markup (concat cards0)"
    by blast
  from socialLinksHTML_blank [OF social] obtain social0 where
    social0: "socialLinksHTML (blankConfig cfg) = Inr social0"
      "filter markup social = filter markup social0"
    by blast
  from escapeArg_blank [OF nm] obtain nm0 where
    nm0: "escapeArg (blankText (name cfg)) = Inr nm0" "filter markup nm = filter markup nm0"
    by blast
  from escapeArg_blank [OF ttl] obtain ttl0 where
    ttl0: "escapeArg (blankText (PortfolioConfig.title cfg)) = Inr ttl0"
      "filter markup ttl = filter markup ttl0"
    by blast
  from escapeArg_blank [OF bi] obtain bi0 where
    bi0: "escapeArg (blankText (bio cfg)) = Inr bi0" "filter markup bi = filter markup bi0"
    by blast
  from escapeArg_blank [OF mail] obtain mail0 where
    mail0: "escapeArg (blankText (email cfg)) = Inr mail0" "filter markup mail = filter markup mail0"
    by blast
  have sel: "name (blankConfig cfg) = blankText (name cfg)"
    "PortfolioConfig.title (blankConfig cfg) = blankText (PortfolioConfig.title cfg)"
    "bio (blankConfig cfg) = blankText (bio cfg)"
    "email (blankConfig cfg) = blankText (email cfg)"
    "themeStyles (blankConfig cfg) = themeStyles cfg"
    by (simp_all add: blankConfig_def themeStyles_def)
  from cfg ne cards0 social0 nm0 ttl0 bi0 mail0
  have "generateHTML (blankPortfolio p)
      = Inr (document nm0 ttl0 (themeStyles cfg) bi0 mail0 social0 (join [] cards0))"
    by (simp add: generateHTML_def blankPortfolio_def sel bindE_def)
  moreover have "filter markup html
      = filter markup (document nm0 ttl0 (themeStyles cfg) bi0 mail0 social0 (join [] cards0))"
    unfolding html
    by (rule markup_document) (simp_all add: nm0 ttl0 bi0 mail0 social0 cards0 join_Nil_concat)
  ultimately show ?thesis by blast
qed

subsection \<open>No script tag in the document\<close>

lemma clean_append: "clean a \<Longrightarrow> clean b \<Longrightarrow> clean (a @ b)"
  by (simp add: clean_def)

lemma clean_Nil: "clean []"
  by (simp add: clean_def)

lemma clean_concat: "(\<And>x. x \<in> set xs \<Longrightarrow> clean x) \<Longrightarrow> clean (concat xs)"
  by (induction xs) (simp_all add: clean_Nil clean_append)

lemma scan_no_lt: "CHR ''<'' \<notin> set s \<Longrightarrow> foldl scanStep Idle s = Idle"
  by (induction s) auto

lemma escapeHTML_no_lt: "CHR ''<'' \<notin> set (escapeHTML s)"
proof
  assume "CHR ''<'' \<in> set (escapeHTML s)"
  moreover have "markup CHR ''<''" by (simp add: markup_def)
  ultimately have "filter markup (escapeHTML s) \<noteq> []"
    by (auto simp: filter_empty_conv)
  then show False by (simp add: markup_escapeHTML)
qed

lemma clean_escapeHTML: "clean (escapeHTML s)"
  unfolding clean_def by (rule scan_no_lt) (rule escapeHTML_no_lt)

lemma clean_escapeArg: "escapeArg v = Inr s \<Longrightarrow> clean s"
  by (auto simp: escapeArg_def clean_escapeHTML split: option.splits)

lemma scan_Found: "foldl scanStep Found s = Found"
  by (induction s) simp_all

lemma scan_pattern: "foldl scanStep q ''<sc'' = Found"
  by (cases q) simp_all

lemma sublist_not_clean: "sublist ''<sc'' s \<Longrightarrow> \<not> clean s"
proof -
  assume "sublist ''<sc'' s"
  then obtain a b where "s = a @ ''<sc'' @ b" by (auto simp: sublist_def)
  then have "foldl scanStep Idle s = foldl scanStep (foldl scanStep (foldl scanStep Idle a) ''<sc'') b"
    by (simp only: foldl_append)
  also have "\<dots> = Found" by (simp only: scan_pattern scan_Found)
  finally show ?thesis by (simp add: clean_def)
qed

lemma clean_no_script: "clean s \<Longrightarrow> \<not> sublist ''<script>'' s"
proof
  assume "clean s" and "sublist ''<script>'' s"
  then obtain a b where "s = a @ ''<script>'' @ b" by (auto simp: sublist_def)
  then have "s = a @ ''<sc'' @ (''ript>'' @ b)" by simp
  then have "sublist ''<sc'' s" unfolding sublist_def by blast
  with \<open>clean s\<close> show False by (simp add: sublist_not_clean)
qed

lemma clean_themeStyles: "clean (themeStyles cfg)"
  by (simp add: themeStyles_def clean_def)

lemma clean_techTag: "clean (techTag tech)"
  unfolding techTag_def
  by (intro clean_append clean_escapeHTML) (simp_all add: clean_def)

lemma clean_imageTemplate: "clean a \<Longrightarrow> clean b \<Longrightarrow> clean (imageTemplate a b)"
  unfolding imageTemplate_def
  by (intro clean_append) (simp_all add: clean_def)

lemma clean_linkTemplate: "clean a \<Longrightarrow> clean b \<Longrightarrow> clean (linkTemplate a b)"
  unfolding linkTemplate_def
  by (intro clean_append) (simp_all add: clean_def)

lemma clean_cardTemplate:
  "clean a \<Longrightarrow> clean b \<Longrightarrow> clean c \<Longrightarrow> clean d \<Longrightarrow> clean e \<Longrightarrow> clean (cardTemplate a b c d e)"
  unfolding cardTemplate_def
  by (intro clean_append) (simp_all add: clean_def)

lemma clean_document:
  "clean a \<Longrightarrow> clean b \<Longrightarrow> clean s \<Longrightarrow> clean c \<Longrightarrow> clean d \<Longrightarrow> clean e \<Longrightarrow> clean f \<Longrightarrow>
     clean (document a b s c d e f)"
  unfolding document_def
  by (intro clean_append) (simp_all add: clean_def)

lemma mapE_Inr_all:
  "mapE f xs = Inr ys \<Longrightarrow> y \<in> set ys \<Longrightarrow> \<exists>x \<in> set xs. f x = Inr y"
proof (induction xs arbitrary: ys)
  case Nil
  then show ?case by simp
next
  case (Cons x xs)
  from Cons.prems(1) obtain z zs where
    z: "f x = Inr z" and zs: "mapE f xs = Inr zs" and ys: "ys = z # zs"
    by (auto simp: bindE_Inr)
  with Cons.prems(2) Cons.IH [OF zs] show ?case by auto
qed

lemma mapE_Inr_in:
  "mapE f xs = Inr ys \<Longrightarrow> x \<in> set xs \<Longrightarrow> \<exists>y \<in> set ys. f x = Inr y"
proof (induction xs arbitrary: ys)
  case Nil
  then show ?case by simp
next
  case (Cons a xs)
  from Cons.prems(1) obtain z zs where
    z: "f a = Inr z" and zs: "mapE f xs = Inr zs" and ys: "ys = z # zs"
    by (auto simp: bindE_Inr)
  with Cons.prems(2) Cons.IH [OF zs] show ?case by auto
qed

lemma projectImage_Inr:
  assumes "projectImage project = Inr img"
  shows "(falsy (imageUrl project) \<and> img = [])
         \<or> (\<not> falsy (imageUrl project)
             \<and> (\<exists>src alt. escapeArg (imageUrl project) = Inr src
                   \<and> escapeArg (Project.title project) = Inr alt \<and> img = imageTemplate src alt))"
  using assms by (cases "falsy (imageUrl project)") (auto simp: projectImage_def bindE_Inr)

lemma clean_projectImage: "projectImage project = Inr img \<Longrightarrow> clean img"
  using projectImage_Inr [of project img]
  by (auto simp: clean_Nil intro: clean_imageTemplate clean_escapeArg)

lemma clean_techTags: "clean (join [] (map techTag techs))"
  unfolding join_Nil_concat by (rule clean_concat) (auto simp: clean_techTag)

lemma clean_projectCard:
  assumes "projectCard project = Inr html"
  shows "clean html"
proof -
  from projectCard_Inr [OF assms] obtain t d u img where
    t: "escapeArg (Project.title project) = Inr t"
    and d: "escapeArg (description project) = Inr d"
    and u: "escapeArg (url project) = Inr u"
    and img: "projectImage project = Inr img"
    and html: "html = cardTemplate t d (join [] (map techTag (technologies project))) u img"
    by blast
  show ?thesis
    unfolding html
    by (rule clean_cardTemplate
          [OF clean_escapeArg [OF t] clean_escapeArg [OF d] clean_techTags
              clean_escapeArg [OF u] clean_projectImage [OF img]])
qed

lemma clean_projectCards:
  assumes "mapE projectCard ps = Inr cards"
  shows "clean (join [] cards)"
  unfolding join_Nil_concat
proof (rule clean_concat)
  fix x assume "x \<in> set cards"
  with mapE_Inr_all [OF assms] obtain p where "projectCard p = Inr x" by blast
  then show "clean x" by (rule clean_projectCard)
qed

lemma socialLink_Inr:
  assumes "socialLink (platform, v) = Inr html"
  shows "\<exists>u. escapeArg v = Inr u \<and> html = linkTemplate u (escapeHTML platform)"
  using assms by (auto simp: socialLink_def bindE_Inr)

lemma clean_socialLink:
  assumes "socialLink entry = Inr html"
  shows "clean html"
proof -
  obtain platform v where entry: "entry = (platform, v)" by (cases entry)
  from assms socialLink_Inr [of platform v html] entry obtain u where
    u: "escapeArg v = Inr u" and html: "html = linkTemplate u (escapeHTML platform)"
    by blast
  show ?thesis
    unfolding html by (rule clean_linkTemplate [OF clean_escapeArg [OF u] clean_escapeHTML])
qed

lemma socialLinksHTML_Inr:
  assumes "socialLinksHTML cfg = Inr social"
  shows "(socialLinks cfg = None \<and> social = [])
         \<or> (\<exists>links anchors. socialLinks cfg = Some links
               \<and> mapE socialLink links = Inr anchors \<and> social = concat anchors)"
  using assms
  by (cases "socialLinks cfg") (auto simp: socialLinksHTML_def bindE_Inr join_Nil_concat)

lemma clean_socialLinksHTML:
  assumes "socialLinksHTML cfg = Inr social"
  shows "clean social"
proof -
  from socialLinksHTML_Inr [OF assms] show ?thesis
  proof
    assume "socialLinks cfg = None \<and> social = []"
    then show ?thesis by (simp add: clean_Nil)
  next
    assume "\<exists>links anchors. socialLinks cfg = Some links
               \<and> mapE socialLink links = Inr anchors \<and> social = concat anchors"
    then obtain links anchors where
      anchors: "mapE socialLink links = Inr anchors" and social: "social = concat anchors"
      by blast
    show ?thesis
      unfolding social
    proof (rule clean_concat)
      fix x assume "x \<in> set anchors"
      with mapE_Inr_all [OF anchors] obtain l where "socialLink l = Inr x" by blast
      then show "clean x" by (rule clean_socialLink)
    qed
  qed
qed

lemma clean_generateHTML:
  assumes "generateHTML p = Inr html"
  shows "clean html"
proof -
  from generateHTML_Inr [OF assms] obtain cfg cards social nm ttl bi mail where
    cards: "mapE projectCard (projects p) = Inr cards"
    and social: "socialLinksHTML cfg = Inr social"
    and nm: "escapeArg (name cfg) = Inr nm"
    and ttl: "escapeArg (PortfolioConfig.title cfg) = Inr ttl"
    and bi: "escapeArg (bio cfg) = Inr bi"
    and mail: "escapeArg (email cfg) = Inr mail"
    and html: "html = document nm ttl (themeStyles cfg) bi mail social (join [] cards)"
    by blast
  show ?thesis
    unfolding html
    by (rule clean_document
          [OF clean_escapeArg [OF nm] clean_escapeArg [OF ttl] clean_themeStyles
              clean_escapeArg [OF bi] clean_escapeArg [OF mail]
              clean_socialLinksHTML [OF social] clean_projectCards [OF cards]])
qed

lemma generateHTML_no_script:
  "generateHTML p = Inr html \<Longrightarrow> \<not> sublist ''<script>'' html"
  by (rule clean_no_script) (rule clean_generateHTML)

subsection \<open>Every ampersand of the document begins an entity\<close>

lemma amp_append:
  "ampersandsEscaped a \<Longrightarrow> ampersandsEscaped b \<Longrightarrow> ampersandsEscaped (a @ b)"
proof (induction a)
  case Nil
  then show ?case by simp
next
  case (Cons c a)
  have "list_ex (\<lambda>body. prefix body (a @ b)) entityBodies"
    if "list_ex (\<lambda>body. prefix body a) entityBodies"
    using that by (auto simp: list_ex_iff intro: prefix_prefix)
  with Cons show ?case by simp
qed

lemma amp_concat: "(\<And>x. x \<in> set xs \<Longrightarrow> ampersandsEscaped x) \<Longrightarrow> ampersandsEscaped (concat xs)"
  by (induction xs) (simp_all add: amp_append)

lemma amp_entity: "ampersandsEscaped r \<Longrightarrow> ampersandsEscaped (entity c @ r)"
  by (simp add: entity_def entityBodies_def)

lemma amp_escapeHTML: "ampersandsEscaped (escapeHTML s)"
  by (induction s) (simp_all add: escapeHTML_Nil escapeHTML_Cons amp_entity)

lemma amp_escapeArg: "escapeArg v = Inr s \<Longrightarrow> ampersandsEscaped s"
  by (auto simp: escapeArg_def amp_escapeHTML split: option.splits)

lemma amp_themeStyles: "ampersandsEscaped (themeStyles cfg)"
  by (simp add: themeStyles_def)

lemma amp_techTag: "ampersandsEscaped (techTag tech)"
  unfolding techTag_def
  by (intro amp_append amp_escapeHTML) simp_all

lemma amp_imageTemplate:
  "ampersandsEscaped a \<Longrightarrow> ampersandsEscaped b \<Longrightarrow> ampersandsEscaped (imageTemplate a b)"
  unfolding imageTemplate_def
  by (intro amp_append) simp_all

lemma amp_linkTemplate:
  "ampersandsEscaped a \<Longrightarrow> ampersandsEscaped b \<Longrightarrow> ampersandsEscaped (linkTemplate a b)"
  unfolding linkTemplate_def
  by (intro amp_append) simp_all

lemma amp_cardTemplate:
  "ampersandsEscaped a \<Longrightarrow> ampersandsEscaped b \<Longrightarrow> ampersandsEscaped c \<Longrightarrow>
   ampersandsEscaped d \<Longrightarrow> ampersandsEscaped e \<Longrightarrow> ampersandsEscaped (cardTemplate a b c d e)"
  unfolding cardTemplate_def
  by (intro amp_append) simp_all

lemma amp_document:
  "ampersandsEscaped a \<Longrightarrow> ampersandsEscaped b \<Longrightarrow> ampersandsEscaped s \<Longrightarrow>
   ampersandsEscaped c \<Longrightarrow> ampersandsEscaped d \<Longrightarrow> ampersandsEscaped e \<Longrightarrow>
   ampersandsEscaped f \<Longrightarrow> ampersandsEscaped (document a b s c d e f)"
  unfolding document_def
  by (intro amp_append) simp_all

lemma amp_projectImage: "projectImage project = Inr img \<Longrightarrow> ampersandsEscaped img"
  using projectImage_Inr [of project img]
  by (auto intro: amp_imageTemplate amp_escapeArg)

lemma amp_techTags: "ampersandsEscaped (join [] (map techTag techs))"
  unfolding join_Nil_concat by (rule amp_concat) (auto simp: amp_techTag)

lemma amp_projectCard:
  assumes "projectCard project = Inr html"
  shows "ampersandsEscaped html"
proof -
  from projectCard_Inr [OF assms] obtain t d u img where
    t: "escapeArg (Project.title project) = Inr t"
    and d: "escapeArg (description project) = Inr d"
    and u: "escapeArg (url project) = Inr u"
    and img: "projectImage project = Inr img"
    and html: "html = cardTemplate t d (join [] (map techTag (technologies project))) u img"
    by blast
  show ?thesis
    unfolding html
    by (rule amp_cardTemplate
          [OF amp_escapeArg [OF t] amp_escapeArg [OF d] amp_techTags
              amp_escapeArg [OF u] amp_projectImage [OF img]])
qed

lemma amp_projectCards:
  assumes "mapE projectCard ps = Inr cards"
  shows "ampersandsEscaped (join [] cards)"
  unfolding join_Nil_concat
proof (rule amp_concat)
  fix x assume "x \<in> set cards"
  with mapE_Inr_all [OF assms] obtain p where "projectCard p = Inr x" by blast
  then show "ampersandsEscaped x" by (rule amp_projectCard)
qed

lemma amp_socialLink:
  assumes "socialLink entry = Inr html"
  shows "ampersandsEscaped html"
proof -
  obtain platform v where entry: "entry = (platform, v)" by (cases entry)
  from assms socialLink_Inr [of platform v html] entry obtain u where
    u: "escapeArg v = Inr u" and html: "html = linkTemplate u (escapeHTML platform)"
    by blast
  show ?thesis
    unfolding html by (rule amp_linkTemplate [OF amp_escapeArg [OF u] amp_escapeHTML])
qed

lemma amp_socialLinksHTML:
  assumes "socialLinksHTML cfg = Inr social"
  shows "ampersandsEscaped social"
proof -
  from socialLinksHTML_Inr [OF assms] show ?thesis
  proof
    assume "socialLinks cfg = None \<and> social = []"
    then show ?thesis by simp
  next
    assume "\<exists>links anchors. socialLinks cfg = Some links
               \<and> mapE socialLink links = Inr anchors \<and> social = concat anchors"
    then obtain links anchors where
      anchors: "mapE socialLink links = Inr anchors" and social: "social = concat anchors"
      by blast
    show ?thesis
      unfolding social
    proof (rule amp_concat)
      fix x assume "x \<in> set anchors"
      with mapE_Inr_all [OF anchors] obtain l where "socialLink l = Inr x" by blast
      then show "ampersandsEscaped x" by (rule amp_socialLink)
    qed
  qed
qed

lemma amp_generateHTML:
  assumes "generateHTML p = Inr html"
  shows "ampersandsEscaped html"
proof -
  from generateHTML_Inr [OF assms] obtain cfg cards social nm ttl bi mail where
    cards: "mapE projectCard (projects p) = Inr cards"
    and social: "socialLinksHTML cfg = Inr social"
    and nm: "escapeArg (name cfg) = Inr nm"
    and ttl: "escapeArg (PortfolioConfig.title cfg) = Inr ttl"
    and bi: "escapeArg (bio cfg) = Inr bi"
    and mail: "escapeArg (email cfg) = Inr mail"
    and html: "html = document nm ttl (themeStyles cfg) bi mail social (join [] cards)"
    by blast
  show ?thesis
    unfolding html
    by (rule amp_document
          [OF amp_escapeArg [OF nm] amp_escapeArg [OF ttl] amp_themeStyles
              amp_escapeArg [OF bi] amp_escapeArg [OF mail]
              amp_socialLinksHTML [OF social] amp_projectCards [OF cards]])
qed

lemma ampersandsEscaped_examples:
  "ampersandsEscaped ''a &amp; b &lt;x&gt;''" "\<not> ampersandsEscaped ''a & b''"
  "\<not> ampersandsEscaped ''&am''"
  by (simp_all add: entityBodies_def)

subsection \<open>Every user text is rendered escaped\<close>

lemma sublist_skip: "sublist x b \<Longrightarrow> sublist x (a @ b)"
proof -
  assume "sublist x b"
  then obtain p s where "b = p @ x @ s" by (auto simp: sublist_def)
  then have "a @ b = (a @ p) @ x @ s" by simp
  then show ?thesis unfolding sublist_def by blast
qed

lemma sublist_chain: "sublist a b \<Longrightarrow> sublist b c \<Longrightarrow> sublist a c"
proof -
  assume "sublist a b" and "sublist b c"
  then obtain p s q t where "b = p @ a @ s" "c = q @ b @ t" by (auto simp: sublist_def)
  then have "c = (q @ p) @ a @ (s @ t)" by simp
  then show ?thesis unfolding sublist_def by blast
qed

lemma sublist_concat: "x \<in> set xs \<Longrightarrow> sublist x (concat xs)"
proof (induction xs)
  case Nil
  then show ?case by simp
next
  case (Cons y ys)
  show ?case
  proof (cases "x = y")
    case True
    then show ?thesis by simp
  next
    case False
    with Cons have "sublist x (concat ys)" by simp
    then show ?thesis by (simp only: concat.simps sublist_skip)
  qed
qed

lemma sublist_imageTemplate:
  "sublist a (imageTemplate a b)" "sublist b (imageTemplate a b)"
  unfolding imageTemplate_def
  by ((rule sublist_append_rightI | rule sublist_skip)+)

lemma sublist_linkTemplate:
  "sublist a (linkTemplate a b)" "sublist b (linkTemplate a b)"
  unfolding linkTemplate_def
  by ((rule sublist_append_rightI | rule sublist_skip)+)

lemma sublist_techTag: "sublist (escapeHTML tech) (techTag tech)"
  unfolding techTag_def
  by ((rule sublist_append_rightI | rule sublist_skip)+)

lemma sublist_cardTemplate:
  "sublist a (cardTemplate a b c d e)" "sublist b (cardTemplate a b c d e)"
  "sublist c (cardTemplate a b c d e)" "sublist d (cardTemplate a b c d e)"
  "sublist e (cardTemplate a b c d e)"
  unfolding cardTemplate_def
  by ((rule sublist_append_rightI | rule sublist_skip)+)

lemma sublist_document:
  "sublist a (document a b s c d e f)" "sublist b (document a b s c d e f)"
  "sublist c (document a b s c d e f)" "sublist d (document a b s c d e f)"
  "sublist e (document a b s c d e f)" "sublist f (document a b s c d e f)"
  unfolding document_def
  by ((rule sublist_append_rightI | rule sublist_skip)+)

lemma escapeArg_optText:
  "escapeArg v = Inr e \<Longrightarrow> s \<in> set (optText v) \<Longrightarrow> e = escapeHTML s"
  by (auto simp: escapeArg_def optText_def split: option.splits)

lemma projectTexts_in_card:
  assumes "projectCard project = Inr html" and "s \<in> set (projectTexts project)"
  shows "sublist (escapeHTML s) html"
proof -
  let ?tags = "join [] (map techTag (technologies project))"
  from projectCard_Inr [OF assms(1)] obtain t d u img where
    t: "escapeArg (Project.title project) = Inr t"
    and d: "escapeArg (description project) = Inr d"
    and u: "escapeArg (url project) = Inr u"
    and img: "projectImage project = Inr img"
    and html: "html = cardTemplate t d ?tags u img"
    by blast
  from assms(2) consider
      "s \<in> set (optText (Project.title project))"
    | "s \<in> set (optText (description project))"
    | "s \<in> set (technologies project)"
    | "s \<in> set (optText (url project))"
    | "\<not> falsy (imageUrl project)" "s \<in> set (optText (imageUrl project))"
    by (auto simp: projectTexts_def split: if_splits)
  then show ?thesis
  proof cases
    case 1
    with t have "t = escapeHTML s" by (rule escapeArg_optText)
    then show ?thesis unfolding html by (simp only: sublist_cardTemplate)
  next
    case 2
    with d have "d = escapeHTML s" by (rule escapeArg_optText)
    then show ?thesis unfolding html by (simp only: sublist_cardTemplate)
  next
    case 3
    then have "techTag s \<in> set (map techTag (technologies project))" by simp
    then have "sublist (techTag s) ?tags"
      unfolding join_Nil_concat by (rule sublist_concat)
    with sublist_techTag have "sublist (escapeHTML s) ?tags" by (rule sublist_chain)
    then show ?thesis
      unfolding html by (rule sublist_chain) (rule sublist_cardTemplate)
  next
    case 4
    with u have "u = escapeHTML s" by (rule escapeArg_optText)
    then show ?thesis unfolding html by (simp only: sublist_cardTemplate)
  next
    case 5
    with projectImage_Inr [OF img] obtain src alt where
      src: "escapeArg (imageUrl project) = Inr src" and i: "img = imageTemplate src alt"
      by blast
    from src 5(2) have "src = escapeHTML s" by (rule escapeArg_optText)
    with i have "sublist (escapeHTML s) img" by (simp only: sublist_imageTemplate)
    then show ?thesis
      unfolding html by (rule sublist_chain) (rule sublist_cardTemplate)
  qed
qed

lemma socialTexts_in_link:
  assumes "socialLink (platform, v) = Inr html" and "s \<in> set (platform # optText v)"
  shows "sublist (escapeHTML s) html"
proof -
  from socialLink_Inr [OF assms(1)] obtain u where
    u: "escapeArg v = Inr u" and html: "html = linkTemplate u (escapeHTML platform)"
    by blast
  from assms(2) have "s = platform \<or> s \<in> set (optText v)" by simp
  then show ?thesis
  proof
    assume "s = platform"
    then show ?thesis unfolding html by (simp only: sublist_linkTemplate)
  next
    assume "s \<in> set (optText v)"
    with u have "u = escapeHTML s" by (rule escapeArg_optText)
    then show ?thesis unfolding html by (simp only: sublist_linkTemplate)
  qed
qed

lemma configTexts_cases:
  assumes "s \<in> set (configTexts cfg)"
  shows "s \<in> set (optText (name cfg)) \<or> s \<in> set (optText (PortfolioConfig.title cfg))
         \<or> s \<in> set (optText (bio cfg)) \<or> s \<in> set (optText (email cfg))
         \<or> (\<exists>links platform v. socialLinks cfg = Some links \<and> (platform, v) \<in> set links
               \<and> s \<in> set (platform # optText v))"
proof (cases "socialLinks cfg")
  case None
  with assms show ?thesis by (auto simp: configTexts_def)
next
  case (Some links)
  with assms have "s \<in> set (optText (name cfg)) \<or> s \<in> set (optText (PortfolioConfig.title cfg))
         \<or> s \<in> set (optText (bio cfg)) \<or> s \<in> set (optText (email cfg))
         \<or> (\<exists>platform v. (platform, v) \<in> set links \<and> s \<in> set (platform # optText v))"
    by (fastforce simp: configTexts_def)
  with Some show ?thesis by blast
qed

lemma generateHTML_userTexts:
  assumes "generateHTML p = Inr html" and "s \<in> set (userTexts p)"
  shows "sublist (escapeHTML s) html"
proof -
  from generateHTML_Inr [OF assms(1)] obtain cfg cards social nm ttl bi mail where
    cfg: "config p = Some cfg"
    and cards: "mapE projectCard (projects p) = Inr cards"
    and social: "socialLinksHTML cfg = Inr social"
    and nm: "escapeArg (name cfg) = Inr nm"
    and ttl: "escapeArg (PortfolioConfig.title cfg) = Inr ttl"
    and bi: "escapeArg (bio cfg) = Inr bi"
    and mail: "escapeArg (email cfg) = Inr mail"
    and html: "html = document nm ttl (themeStyles cfg) bi mail social (join [] cards)"
    by blast
  from assms(2) cfg consider
      "s \<in> set (optText (name cfg))"
    | "s \<in> set (optText (PortfolioConfig.title cfg))"
    | "s \<in> set (optText (bio cfg))"
    | "s \<in> set (optText (email cfg))"
    | links platform v where "socialLinks cfg = Some links" "(platform, v) \<in> set links"
        "s \<in> set (platform # optText v)"
    | project where "project \<in> set (projects p)" "s \<in> set (projectTexts project)"
    using configTexts_cases [of s cfg] by (auto simp: userTexts_def)
  then show ?thesis
  proof cases
    case 1
    with nm have "nm = escapeHTML s" by (rule escapeArg_optText)
    then show ?thesis unfolding html by (simp only: sublist_document)
  next
    case 2
    with ttl have "ttl = escapeHTML s" by (rule escapeArg_optText)
    then show ?thesis unfolding html by (simp only: sublist_document)
  next
    case 3
    with bi have "bi = escapeHTML s" by (rule escapeArg_optText)
    then show ?thesis unfolding html by (simp only: sublist_document)
  next
    case 4
    with mail have "mail = escapeHTML s" by (rule escapeArg_optText)
    then show ?thesis unfolding html by (simp only: sublist_document)
  next
    case 5
    with socialLinksHTML_Inr [OF social] obtain anchors where
      anchors: "mapE socialLink links = Inr anchors" and soc: "social = concat anchors"
      by auto
    from mapE_Inr_in [OF anchors 5(2)] obtain a where
      a: "a \<in> set anchors" "socialLink (platform, v) = Inr a"
      by blast
    from socialTexts_in_link [OF a(2) 5(3)] have "sublist (escapeHTML s) a" .
    moreover from a(1) have "sublist a social" unfolding soc by (rule sublist_concat)
    ultimately have "sublist (escapeHTML s) social" by (rule sublist_chain)
    then show ?thesis
      unfolding html by (rule sublist_chain) (rule sublist_document)
  next
    case 6
    from mapE_Inr_in [OF cards 6(1)] obtain c where
      c: "c \<in> set cards" "projectCard project = Inr c"
      by blast
    from projectTexts_in_card [OF c(2) 6(2)] have "sublist (escapeHTML s) c" .
    moreover from c(1) have "sublist c (join [] cards)"
      unfolding join_Nil_concat by (rule sublist_concat)
    ultimately have "sublist (escapeHTML s) (join [] cards)" by (rule sublist_chain)
    then show ?thesis
      unfolding html by (rule sublist_chain) (rule sublist_document)
  qed
qed

text \<open>
  C1. In every document that \<^verbatim>\<open>generateHTML\<close> returns, each user-supplied text
  appears in its escaped form, and only so: the tag and quote characters of the
  document are exactly those of the same document with every user text replaced by a
  placeholder, every ampersand of the document begins one of the five entities, and
  the document contains no \<^verbatim>\<open><script>\<close>. For a project with title
  \<^verbatim>\<open><script>\<close> and description \<^verbatim>\<open>a & b\<close> the document contains \<^verbatim>\<open>&lt;script&gt;\<close> and
  \<^verbatim>\<open>a &amp; b\<close>.
\<close>

theorem generateHTML_escapes_user_text:
  assumes "generateHTML p = Inr html"
  shows "(\<forall>s \<in> set (userTexts p). sublist (escapeHTML s) html)
       \<and> (\<exists>html0. generateHTML (blankPortfolio p) = Inr html0
             \<and> filter markup html = filter markup html0)
       \<and> ampersandsEscaped html
       \<and> \<not> sublist ''<script>'' html
       \<and> (\<forall>project \<in> set (projects p).
             Project.title project = Some ''<script>'' \<and> description project = Some ''a & b'' \<longrightarrow>
             sublist ''&lt;script&gt;'' html \<and> sublist ''a &amp; b'' html)"
proof -
  have texts: "sublist (escapeHTML s) html" if "s \<in> set (userTexts p)" for s
    using assms that by (rule generateHTML_userTexts)
  have example: "sublist ''&lt;script&gt;'' html \<and> sublist ''a &amp; b'' html"
    if "project \<in> set (projects p)" and "Project.title project = Some ''<script>''"
      and "description project = Some ''a & b''" for project
  proof -
    from that have "''<script>'' \<in> set (projectTexts project)" "''a & b'' \<in> set (projectTexts project)"
      by (simp_all add: projectTexts_def optText_def)
    with that(1) have "''<script>'' \<in> set (userTexts p)" "''a & b'' \<in> set (userTexts p)"
      by (auto simp: userTexts_def)
    then have "sublist (escapeHTML ''<script>'') html" "sublist (escapeHTML ''a & b'') html"
      by (simp_all only: texts)
    moreover have "escapeHTML ''<script>'' = ''&lt;script&gt;''" "escapeHTML ''a & b'' = ''a &amp; b''"
      by (simp_all add: escapeHTML_entities entity_def)
    ultimately show ?thesis by simp
  qed
  from texts generateHTML_blank [OF assms] amp_generateHTML [OF assms]
    generateHTML_no_script [OF assms] example
  show ?thesis by blast
qed

theorem generateHTML_escapes_user_text_witness:
  "\<exists>html. generateHTML scriptPortfolio = Inr html
     \<and> sublist ''&lt;script&gt;'' html \<and> sublist ''a &amp; b'' html
     \<and> \<not> sublist ''<script>'' html"
proof -
  have "\<exists>html. generateHTML scriptPortfolio = Inr html"
    by (simp add: generateHTML_def scriptPortfolio_def scriptProject_def aliceConfig_def
          testProject_def bindE_def projectCard_def projectImage_def socialLinksHTML_def
          socialLink_def escapeArg_def falsy_def)
  then obtain html where html: "generateHTML scriptPortfolio = Inr html" ..
  note result = generateHTML_escapes_user_text [OF html]
  have member: "scriptProject \<in> set (projects scriptPortfolio)"
    by (simp add: scriptPortfolio_def)
  have fields: "Project.title scriptProject = Some ''<script>'' \<and> description scriptProject = Some ''a & b''"
    by (simp add: scriptProject_def)
  note example = result [THEN conjunct2, THEN conjunct2, THEN conjunct2, THEN conjunct2]
  from bspec [OF example member] fields
  have "sublist ''&lt;script&gt;'' html \<and> sublist ''a &amp; b'' html"
    by (rule mp)
  with html result [THEN conjunct2, THEN conjunct2, THEN conjunct2, THEN conjunct1] show ?thesis
    by (intro exI conjI) simp_all
qed

subsection \<open>When generateHTML fails\<close>

lemma escapeArg_error: "escapeArg v = Inl e \<Longrightarrow> e = TypeError"
  by (auto simp: escapeArg_def split: option.splits)

lemma bindE_Inl: "bindE m f = Inl e \<longleftrightarrow> m = Inl e \<or> (\<exists>x. m = Inr x \<and> f x = Inl e)"
  by (cases m) (simp_all add: bindE_def)

lemma mapE_error: "(\<And>x e. f x = Inl e \<Longrightarrow> e = TypeError) \<Longrightarrow> mapE f xs = Inl e \<Longrightarrow> e = TypeError"
  by (induction xs arbitrary: e) (auto simp: bindE_Inl)

lemma projectImage_error: "projectImage project = Inl e \<Longrightarrow> e = TypeError"
  by (auto simp: projectImage_def bindE_Inl split: if_splits dest: escapeArg_error)

lemma projectCard_error: "projectCard project = Inl e \<Longrightarrow> e = TypeError"
  by (auto simp: projectCard_def bindE_Inl dest: escapeArg_error projectImage_error)

lemma socialLink_error: "socialLink entry = Inl e \<Longrightarrow> e = TypeError"
  by (cases entry) (auto simp: socialLink_def bindE_Inl dest: escapeArg_error)

lemma socialLinks_error: "mapE socialLink links = Inl e \<Longrightarrow> e = TypeError"
  using socialLink_error by (rule mapE_error)

lemma projectCards_error: "mapE projectCard ps = Inl e \<Longrightarrow> e = TypeError"
  using projectCard_error by (rule mapE_error)

lemma socialLinksHTML_error: "socialLinksHTML cfg = Inl e \<Longrightarrow> e = TypeError"
  by (cases "socialLinks cfg")
     (auto simp: socialLinksHTML_def bindE_Inl dest: socialLinks_error)

lemma generateHTML_error:
  assumes "generateHTML p = Inl e" and "config p \<noteq> None" and "projects p \<noteq> []"
  shows "e = TypeError"
proof -
  from assms(2) obtain cfg where cfg: "config p = Some cfg" by auto
  from assms(1,3) cfg show ?thesis
    by (auto simp: generateHTML_def bindE_Inl
          dest: escapeArg_error socialLinksHTML_error projectCards_error)
qed

lemma generateHTML_empty_error:
  assumes "config p \<noteq> None"
  shows "generateHTML p = Inl (Error ''Cannot generate HTML for empty portfolio'') \<longleftrightarrow> projects p = []"
proof
  assume "generateHTML p = Inl (Error ''Cannot generate HTML for empty portfolio'')"
  with generateHTML_error [OF _ assms] show "projects p = []" by fastforce
next
  assume "projects p = []"
  with assms show "generateHTML p = Inl (Error ''Cannot generate HTML for empty portfolio'')"
    by (auto simp: generateHTML_def)
qed

lemma escapeArg_present: "v \<noteq> None \<Longrightarrow> \<exists>s. escapeArg v = Inr s"
  by (auto simp: escapeArg_def)

lemma mapE_total: "(\<And>x. x \<in> set xs \<Longrightarrow> \<exists>y. f x = Inr y) \<Longrightarrow> \<exists>ys. mapE f xs = Inr ys"
proof (induction xs)
  case Nil
  show ?case by simp
next
  case (Cons x xs)
  from Cons.prems obtain y where y: "f x = Inr y" by auto
  from Cons.IH Cons.prems obtain ys where ys: "mapE f xs = Inr ys" by auto
  from y ys show ?case by (simp add: bindE_def)
qed

lemma projectCard_present:
  assumes "Project.title project \<noteq> None" "description project \<noteq> None" "url project \<noteq> None"
  shows "\<exists>html. projectCard project = Inr html"
proof -
  from assms obtain t d u where
    t: "escapeArg (Project.title project) = Inr t"
    and d: "escapeArg (description project) = Inr d"
    and u: "escapeArg (url project) = Inr u"
    using escapeArg_present by metis
  have "\<exists>img. projectImage project = Inr img"
  proof (cases "falsy (imageUrl project)")
    case True
    then show ?thesis by (simp add: projectImage_def)
  next
    case False
    then have "imageUrl project \<noteq> None" by (auto simp: falsy_def split: option.splits)
    then obtain src where "escapeArg (imageUrl project) = Inr src"
      using escapeArg_present by blast
    with False t show ?thesis by (simp add: projectImage_def bindE_def)
  qed
  then obtain img where "projectImage project = Inr img" ..
  with t d u show ?thesis by (simp add: projectCard_def bindE_def)
qed

lemma socialLink_present: "snd entry \<noteq> None \<Longrightarrow> \<exists>html. socialLink entry = Inr html"
  by (cases entry) (auto simp: socialLink_def escapeArg_def bindE_def)

lemma generateHTML_returns:
  assumes "textsPresent p" and "projects p \<noteq> []"
  shows "\<exists>html. generateHTML p = Inr html"
proof -
  from assms(1) obtain cfg where cfg: "config p = Some cfg"
    by (auto simp: textsPresent_def split: option.splits)
  with assms(1) have fields: "name cfg \<noteq> None" "PortfolioConfig.title cfg \<noteq> None"
      "bio cfg \<noteq> None" "email cfg \<noteq> None"
    and links: "\<And>links. socialLinks cfg = Some links \<Longrightarrow> list_all (\<lambda>(platform, v). v \<noteq> None) links"
    and projs: "list_all (\<lambda>project. Project.title project \<noteq> None \<and> description project \<noteq> None
                               \<and> url project \<noteq> None) (projects p)"
    by (auto simp: textsPresent_def)
  from fields obtain nm ttl bi mail where
    texts: "escapeArg (name cfg) = Inr nm" "escapeArg (PortfolioConfig.title cfg) = Inr ttl"
      "escapeArg (bio cfg) = Inr bi" "escapeArg (email cfg) = Inr mail"
    using escapeArg_present by metis
  have "\<exists>cards. mapE projectCard (projects p) = Inr cards"
  proof (rule mapE_total)
    fix x assume "x \<in> set (projects p)"
    with projs show "\<exists>y. projectCard x = Inr y"
      by (auto simp: list_all_iff intro: projectCard_present)
  qed
  then obtain cards where cards: "mapE projectCard (projects p) = Inr cards" ..
  have "\<exists>social. socialLinksHTML cfg = Inr social"
  proof (cases "socialLinks cfg")
    case None
    then show ?thesis by (simp add: socialLinksHTML_def)
  next
    case (Some ls)
    have "\<exists>anchors. mapE socialLink ls = Inr anchors"
    proof (rule mapE_total)
      fix x assume "x \<in> set ls"
      with links [OF Some] have "snd x \<noteq> None" by (auto simp: list_all_iff)
      then show "\<exists>y. socialLink x = Inr y" by (rule socialLink_present)
    qed
    with Some show ?thesis by (auto simp: socialLinksHTML_def bindE_def)
  qed
  then obtain social where social: "socialLinksHTML cfg = Inr social" ..
  from cfg assms(2) cards social texts show ?thesis
    by (simp add: generateHTML_def bindE_def)
qed

text \<open>
  C7. \<^verbatim>\<open>generateHTML\<close> fails with "Cannot generate HTML for empty portfolio" exactly
  when the project list is empty (\<open>generateHTML_empty_error\<close>), and returns a document
  for a non-empty list when every value it escapes is a string
  (\<open>generateHTML_returns\<close>). A social link whose value is \<^verbatim>\<open>undefined\<close> passes
  \<^verbatim>\<open>createPortfolio\<close>, which skips falsy values, but \<^verbatim>\<open>generateHTML\<close> escapes it
  unguarded: for such a portfolio with one project the call raises a \<^verbatim>\<open>TypeError\<close>
  instead of returning a document.
\<close>

theorem generateHTML_undefined_social_link:
  "createPortfolio sampleValidURL (johnConfig\<lparr>socialLinks := Some [(''github'', None)]\<rparr>)
     = Inr \<lparr>config = Some (johnConfig\<lparr>socialLinks := Some [(''github'', None)], theme := Some Light\<rparr>),
            projects = []\<rparr>
   \<and> addProject sampleValidURL
        \<lparr>config = Some (johnConfig\<lparr>socialLinks := Some [(''github'', None)], theme := Some Light\<rparr>),
         projects = []\<rparr> testProject
     = (Inr (),
        \<lparr>config = Some (johnConfig\<lparr>socialLinks := Some [(''github'', None)], theme := Some Light\<rparr>),
         projects = [testProject]\<rparr>)
   \<and> generateHTML
        \<lparr>config = Some (johnConfig\<lparr>socialLinks := Some [(''github'', None)], theme := Some Light\<rparr>),
         projects = [testProject]\<rparr>
     = Inl TypeError"
proof (intro conjI)
  show "createPortfolio sampleValidURL (johnConfig\<lparr>socialLinks := Some [(''github'', None)]\<rparr>)
     = Inr \<lparr>config = Some (johnConfig\<lparr>socialLinks := Some [(''github'', None)], theme := Some Light\<rparr>),
            projects = []\<rparr>"
    by (simp add: createPortfolio_def johnConfig_def falsy_def invalidLinks_def)
  show "addProject sampleValidURL
        \<lparr>config = Some (johnConfig\<lparr>socialLinks := Some [(''github'', None)], theme := Some Light\<rparr>),
         projects = []\<rparr> testProject
     = (Inr (),
        \<lparr>config = Some (johnConfig\<lparr>socialLinks := Some [(''github'', None)], theme := Some Light\<rparr>),
         projects = [testProject]\<rparr>)"
    by (simp add: addProject_def testProject_def falsy_def toString_def sampleValidURL_def)
  show "generateHTML
        \<lparr>config = Some (johnConfig\<lparr>socialLinks := Some [(''github'', None)], theme := Some Light\<rparr>),
         projects = [testProject]\<rparr>
     = Inl TypeError"
    by (simp add: generateHTML_def johnConfig_def testProject_def bindE_def projectCard_def
          projectImage_def socialLinksHTML_def socialLink_def escapeArg_def falsy_def)
qed

end
